theory Spec2Isabelle
  imports Complex_Main "HOL-Library.Word"
begin

unbundle bit_operations_syntax

section \<open>Python values and exceptions\<close>

text \<open>
  The exceptions the modelled code can raise. \<open>IFC\<close> is
  \<^verbatim>\<open>error.BASICError(error.IFC)\<close>, the interpreter's "illegal function call".
\<close>

datatype error =
  IndexError | ValueError | ZeroDivisionError | AssertionError | KeyError | TypeError
  | AttributeError | IFC

text \<open>
  A \<^verbatim>\<open>bytearray\<close> is a list of bytes. Reading an element gives a Python int
  (\<open>unat\<close>); building one from ints raises \<^verbatim>\<open>ValueError\<close> when an int is not in
  \<^verbatim>\<open>range(256)\<close>.
\<close>

type_synonym byte = "8 word"

definition bytearray :: "nat list \<Rightarrow> error + byte list" where
  "bytearray ns = (if \<forall>n \<in> set ns. n < 256 then Inr (map of_nat ns) else Inl ValueError)"

text \<open>\<^verbatim>\<open>range(0, stop, step)\<close> for a positive step; a zero step raises \<^verbatim>\<open>ValueError\<close>.\<close>

definition range_step :: "nat \<Rightarrow> nat \<Rightarrow> error + nat list" where
  "range_step stop step =
     (if step = 0 then Inl ValueError
      else Inr (map (\<lambda>k. k * step) [0 ..< (stop + step - 1) div step]))"

text \<open>
  A slice \<^verbatim>\<open>start:stop\<close> (no step); either bound may be absent (\<^verbatim>\<open>None\<close>) or
  negative. \<open>slice_bound n d b\<close> is the bound clipped into \<open>[0, n]\<close> as Python does for
  a sequence of length \<open>n\<close>.
\<close>

datatype slice = Slice "int option" "int option"

definition slice_bound :: "nat \<Rightarrow> nat \<Rightarrow> int option \<Rightarrow> nat" where
  "slice_bound n d b =
     (case b of
        None \<Rightarrow> d
      | Some i \<Rightarrow> if i < 0 then nat (max 0 (int n + i)) else min n (nat i))"

fun getslice :: "'a list \<Rightarrow> slice \<Rightarrow> 'a list" where
  "getslice xs (Slice start stop) =
     (let lo = slice_bound (length xs) 0 start;
          hi = slice_bound (length xs) (length xs) stop
      in take (hi - lo) (drop lo xs))"

text \<open>Scalar indexing \<^verbatim>\<open>xs[i]\<close>: negative indices count from the end.\<close>

definition getindex :: "'a list \<Rightarrow> int \<Rightarrow> error + 'a" where
  "getindex xs i =
     (if 0 \<le> i \<and> i < int (length xs) then Inr (xs ! nat i)
      else if i < 0 \<and> - int (length xs) \<le> i then Inr (xs ! nat (int (length xs) + i))
      else Inl IndexError)"

text \<open>Running a fallible step over a list, stopping at the first exception.\<close>

fun mapM :: "('a \<Rightarrow> error + 'b) \<Rightarrow> 'a list \<Rightarrow> error + 'b list" where
  "mapM f [] = Inr []"
| "mapM f (x # xs) =
     (case f x of
        Inl e \<Rightarrow> Inl e
      | Inr y \<Rightarrow> (case mapM f xs of Inl e \<Rightarrow> Inl e | Inr ys \<Rightarrow> Inr (y # ys)))"

section \<open>bytematrix.py: 2D matrices of bytes\<close>

text \<open>
  A matrix object with its attributes \<^verbatim>\<open>_width\<close>, \<^verbatim>\<open>_height\<close> and \<^verbatim>\<open>_rows\<close>, the
  rows being bytearrays. The attribute \<^verbatim>\<open>_rows\<close> may be missing (\<open>None\<close>):
  \<^verbatim>\<open>__init__\<close> with neither width nor height sets \<^verbatim>\<open>_data\<close> and no \<^verbatim>\<open>_rows\<close>.
\<close>

record ByteMatrix =
  bm_width :: nat
  bm_height :: nat
  bm_rows :: "byte list list option"

text \<open>\<^verbatim>\<open>ByteMatrix()\<close>, the object that \<^verbatim>\<open>cls()\<close> gives.\<close>

definition ByteMatrix_new :: ByteMatrix where
  "ByteMatrix_new = \<lparr>bm_width = 0, bm_height = 0, bm_rows = None\<rparr>"

text \<open>Reading \<^verbatim>\<open>self._rows\<close> raises \<^verbatim>\<open>AttributeError\<close> on an object without it.\<close>

definition rows_attr :: "ByteMatrix \<Rightarrow> error + byte list list" where
  "rows_attr g = (case bm_rows g of None \<Rightarrow> Inl AttributeError | Some rs \<Rightarrow> Inr rs)"

text \<open>
  The invariant of a grid: \<open>height\<close> rows of \<open>width\<close> bytes each; there are rows unless
  both the width and the height are zero, which is the object \<^verbatim>\<open>ByteMatrix()\<close>.
\<close>

definition wf_matrix :: "ByteMatrix \<Rightarrow> bool" where
  "wf_matrix g =
     (case bm_rows g of
        None \<Rightarrow> bm_width g = 0 \<and> bm_height g = 0
      | Some rs \<Rightarrow>
          length rs = bm_height g \<and> list_all (\<lambda>r. length r = bm_width g) rs
          \<and> 0 < bm_width g + bm_height g)"

text \<open>
  \<^verbatim>\<open>ByteMatrix._create_from_rows\<close> sets the three attributes on a new object:
  \<^verbatim>\<open>len(data[0])\<close> raises \<^verbatim>\<open>IndexError\<close> on an empty row list, before the assertion
  on the row lengths is reached.
\<close>

definition create_from_rows :: "byte list list \<Rightarrow> error + ByteMatrix" where
  "create_from_rows data =
     (case data of
        [] \<Rightarrow> Inl IndexError
      | r # _ \<Rightarrow>
          if list_all (\<lambda>r'. length r' = length r) data
          then Inr (ByteMatrix_new\<lparr>bm_height := length data, bm_width := length r,
                                   bm_rows := Some data\<rparr>)
          else Inl AssertionError)"

subsection \<open>Packing and unpacking\<close>

text \<open>
  The first three lines of both \<^verbatim>\<open>unpack_bytes\<close> and \<^verbatim>\<open>pack_bytes\<close>:
  \<^verbatim>\<open>bpp = 8 // items_per_byte\<close> (\<^verbatim>\<open>ZeroDivisionError\<close> at 0), the mask, and the shifts
  \<^verbatim>\<open>[8 - bpp - sh for sh in range(0, 8, bpp)]\<close> (\<^verbatim>\<open>ValueError\<close> when \<open>bpp = 0\<close>).
  \<open>8 div n\<close> is one of 8, 4, 2, 1 for \<open>1 \<le> n \<le> 8\<close>, each a divisor of 8, so no shift
  is negative.
\<close>

definition shift_schedule :: "nat \<Rightarrow> error + (nat \<times> nat list)" where
  "shift_schedule items_per_byte =
     (if items_per_byte = 0 then Inl ZeroDivisionError
      else let bpp = 8 div items_per_byte; msk = push_bit bpp 1 - 1
           in (case range_step 8 bpp of
                 Inl e \<Rightarrow> Inl e
               | Inr shs \<Rightarrow> Inr (msk, map (\<lambda>sh. 8 - bpp - sh) shs)))"

definition unpack_bytes :: "byte list \<Rightarrow> nat \<Rightarrow> error + byte list" where
  "unpack_bytes packed items_per_byte =
     (case shift_schedule items_per_byte of
        Inl e \<Rightarrow> Inl e
      | Inr (msk, shifts) \<Rightarrow>
          bytearray (concat (map (\<lambda>b. map (\<lambda>shift. drop_bit shift (unat b) AND msk) shifts)
                                 packed)))"

definition pack_bytes :: "byte list \<Rightarrow> nat \<Rightarrow> error + byte list" where
  "pack_bytes unpacked items_per_byte =
     (case shift_schedule items_per_byte of
        Inl e \<Rightarrow> Inl e
      | Inr (msk, shifts) \<Rightarrow>
          let packed_width = length unpacked div items_per_byte;
              prepacked = map (\<lambda>(b, shift). push_bit shift (unat b AND msk))
                              (zip unpacked (concat (replicate packed_width shifts)))
          in (case range_step (length prepacked) items_per_byte of
                Inl e \<Rightarrow> Inl e
              | Inr offs \<Rightarrow>
                  bytearray (map (\<lambda>off. sum_list (take items_per_byte (drop off prepacked)))
                                 offs)))"

text \<open>
  \<^verbatim>\<open>ByteMatrix.frompacked\<close>: the width is computed first (\<^verbatim>\<open>ZeroDivisionError\<close> at
  height 0), then the bytes are unpacked and cut into rows of that width
  (\<^verbatim>\<open>range(0, len(unpacked), width)\<close>, a \<^verbatim>\<open>ValueError\<close> at width 0).
\<close>

definition frompacked :: "byte list \<Rightarrow> nat \<Rightarrow> nat \<Rightarrow> error + ByteMatrix" where
  "frompacked packed h items_per_byte =
     (if h = 0 then Inl ZeroDivisionError
      else let w = items_per_byte * length packed div h
           in (case unpack_bytes packed items_per_byte of
                 Inl e \<Rightarrow> Inl e
               | Inr unpacked \<Rightarrow>
                   (case range_step (length unpacked) w of
                      Inl e \<Rightarrow> Inl e
                    | Inr offs \<Rightarrow>
                        create_from_rows (map (\<lambda>off. take w (drop off unpacked)) offs))))"

definition packed :: "ByteMatrix \<Rightarrow> nat \<Rightarrow> error + byte list" where
  "packed g items_per_byte =
     (case rows_attr g of
        Inl e \<Rightarrow> Inl e
      | Inr rows \<Rightarrow> pack_bytes (concat rows) items_per_byte)"

subsection \<open>Indexing\<close>

text \<open>
  \<^verbatim>\<open>ByteMatrix.__getitem__\<close>: each of \<open>x\<close> and \<open>y\<close> is a scalar index or a slice. The
  result is a byte when both are scalars and a new matrix otherwise. The list of selected
  rows is built first and then handed to \<^verbatim>\<open>_create_from_rows\<close>. Every branch starts
  by reading \<^verbatim>\<open>self._rows\<close>; \<open>getitem_rows\<close> is the rest of the method, on the rows.
\<close>

datatype index = Idx int | Sl slice

datatype item = Byte byte | Matrix ByteMatrix

fun getitem_rows :: "byte list list \<Rightarrow> index \<Rightarrow> index \<Rightarrow> error + item" where
  "getitem_rows rows (Sl x) (Sl y) =
     map_sum id Matrix (create_from_rows (map (\<lambda>row. getslice row x) (getslice rows y)))"
| "getitem_rows rows (Idx x) (Sl y) =
     (case mapM (\<lambda>row. map_sum id (\<lambda>b. [b]) (getindex row x)) (getslice rows y) of
        Inl e \<Rightarrow> Inl e
      | Inr data \<Rightarrow> map_sum id Matrix (create_from_rows data))"
| "getitem_rows rows (Sl x) (Idx y) =
     (case getindex rows y of
        Inl e \<Rightarrow> Inl e
      | Inr row \<Rightarrow> map_sum id Matrix (create_from_rows [getslice row x]))"
| "getitem_rows rows (Idx x) (Idx y) =
     (case getindex rows y of
        Inl e \<Rightarrow> Inl e
      | Inr row \<Rightarrow> map_sum id Byte (getindex row x))"

definition getitem :: "ByteMatrix \<Rightarrow> index \<Rightarrow> index \<Rightarrow> error + item" where
  "getitem g x y =
     (case rows_attr g of
        Inl e \<Rightarrow> Inl e
      | Inr rows \<Rightarrow> getitem_rows rows x y)"

subsection \<open>Rendering\<close>

text \<open>
  \<^verbatim>\<open>chr(n)\<close> (Python 2: a one-byte string) raises \<^verbatim>\<open>ValueError\<close> outside
  \<^verbatim>\<open>range(256)\<close>. \<^verbatim>\<open>bytearray.replace(old, new)\<close> with one-byte arguments returns a copy
  in which every byte equal to \<open>old\<close> is \<open>new\<close>.
\<close>

definition chr :: "int \<Rightarrow> error + byte" where
  "chr n = (if 0 \<le> n \<and> n < 256 then Inr (of_int n) else Inl ValueError)"

definition replace :: "byte list \<Rightarrow> byte \<Rightarrow> byte \<Rightarrow> byte list" where
  "replace row old new = map (\<lambda>c. if c = old then new else c) row"

text \<open>
  \<^verbatim>\<open>ByteMatrix.render\<close>: on every row, first each 0 byte is replaced by \<open>back\<close>, then, in
  the row so obtained, each 1 byte is replaced by \<open>fore\<close>.
\<close>

definition render_row :: "int \<Rightarrow> int \<Rightarrow> byte list \<Rightarrow> error + byte list" where
  "render_row back fore row =
     (case chr back of
        Inl e \<Rightarrow> Inl e
      | Inr b \<Rightarrow>
          (case chr fore of
             Inl e \<Rightarrow> Inl e
           | Inr f \<Rightarrow> Inr (replace (replace row 0 b) 1 f)))"

definition render :: "ByteMatrix \<Rightarrow> int \<Rightarrow> int \<Rightarrow> error + ByteMatrix" where
  "render g back fore =
     (case rows_attr g of
        Inl e \<Rightarrow> Inl e
      | Inr rows \<Rightarrow>
          (case mapM (render_row back fore) rows of
             Inl e \<Rightarrow> Inl e
           | Inr data \<Rightarrow> create_from_rows data))"

subsection \<open>Concatenation\<close>

text \<open>
  \<^verbatim>\<open>zip(*xss)\<close>: the tuples of \<open>i\<close>-th elements, for \<open>i\<close> below the length of the
  shortest list; no tuple at all when there is no list.
\<close>

definition zip_star :: "'a list list \<Rightarrow> 'a list list" where
  "zip_star xss =
     (case xss of
        [] \<Rightarrow> []
      | xs # rest \<Rightarrow>
          map (\<lambda>i. map (\<lambda>ys. ys ! i) xss)
              [0 ..< fold (\<lambda>ys n. min (length ys) n) rest (length xs)])"

text \<open>
  Both functions read \<^verbatim>\<open>_mat._rows\<close> of the matrices in order, before any row is
  joined: \<^verbatim>\<open>hstack\<close> unpacks the rows of all the matrices into the arguments of
  \<^verbatim>\<open>zip\<close>, \<^verbatim>\<open>vstack\<close> collects the rows of one matrix after the other.
\<close>

definition hstack :: "ByteMatrix list \<Rightarrow> error + ByteMatrix" where
  "hstack matrices =
     (case mapM rows_attr matrices of
        Inl e \<Rightarrow> Inl e
      | Inr rowss \<Rightarrow> create_from_rows (map concat (zip_star rowss)))"

definition vstack :: "ByteMatrix list \<Rightarrow> error + ByteMatrix" where
  "vstack matrices =
     (case mapM rows_attr matrices of
        Inl e \<Rightarrow> Inl e
      | Inr rowss \<Rightarrow> create_from_rows (concat rowss))"

section \<open>display/modes.py: emulated video modes\<close>

text \<open>
  A dict display with the entries in source order: a later entry for the same key
  replaces an earlier one.
\<close>

definition dict :: "('k \<times> 'v) list \<Rightarrow> ('k \<rightharpoonup> 'v)" where
  "dict kvs = map_of (rev kvs)"

text \<open>Subscription \<^verbatim>\<open>d[k]\<close> raises \<^verbatim>\<open>KeyError\<close> on a missing key.\<close>

definition subscr :: "('k \<rightharpoonup> 'v) \<Rightarrow> 'k \<Rightarrow> error + 'v" where
  "subscr d k = (case d k of None \<Rightarrow> Inl KeyError | Some v \<Rightarrow> Inr v)"

subsection \<open>SCREEN modes by number for each adapter\<close>

text \<open>
  The keys of an adapter's table are mode numbers and, for the text modes, the tuples
  \<^verbatim>\<open>(0, width)\<close>.
\<close>

datatype mode_key = Number int | Tuple int int

text \<open>
  On Olivetti M24 all numbers 3-255 give the same mode:
  \<^verbatim>\<open>{_mode: '640x400x2' for _mode in range(4, 256)}\<close>.
\<close>

definition olivetti_super :: "mode_key \<rightharpoonup> string" where
  "olivetti_super k =
     (case k of
        Number m \<Rightarrow> if 4 \<le> m \<and> m < 256 then Some ''640x400x2'' else None
      | Tuple _ _ \<Rightarrow> None)"

text \<open>The display of \<^verbatim>\<open>_MODES\<close>, and the table after the Olivetti entry is updated.\<close>

definition MODES_display :: "(string \<times> (mode_key \<times> string) list) list" where
  "MODES_display = [
     (''cga'', [
        (Tuple 0 40, ''cgatext40''), (Tuple 0 80, ''cgatext80''),
        (Number 1, ''320x200x4''), (Number 2, ''640x200x2'')]),
     (''ega'', [
        (Tuple 0 40, ''egatext40''), (Tuple 0 80, ''egatext80''),
        (Number 1, ''320x200x4''), (Number 2, ''640x200x2''),
        (Number 7, ''320x200x16''), (Number 8, ''640x200x16''), (Number 9, ''640x350x16'')]),
     (''vga'', [
        (Tuple 0 40, ''vgatext40''), (Tuple 0 80, ''vgatext80''),
        (Number 1, ''320x200x4''), (Number 2, ''640x200x2''),
        (Number 7, ''320x200x16''), (Number 8, ''640x200x16''), (Number 9, ''640x350x16'')]),
     (''mda'', [
        (Tuple 0 40, ''mdatext40''), (Tuple 0 80, ''mdatext80'')]),
     (''ega_mono'', [
        (Tuple 0 40, ''ega_monotext40''), (Tuple 0 80, ''ega_monotext80''),
        (Number 10, ''640x350x4'')]),
     (''hercules'', [
        (Tuple 0 40, ''mdatext40''), (Tuple 0 80, ''mdatext80''),
        (Number 3, ''720x348x2'')]),
     (''tandy'', [
        (Tuple 0 40, ''tandytext40''), (Tuple 0 80, ''tandytext80''),
        (Number 1, ''320x200x4_8pg''), (Number 2, ''640x200x2_8pg''),
        (Number 3, ''160x200x16''), (Number 4, ''320x200x4pcjr''),
        (Number 5, ''320x200x16pcjr''), (Number 6, ''640x200x4'')]),
     (''pcjr'', [
        (Tuple 0 40, ''cgatext40''), (Tuple 0 80, ''cgatext80''),
        (Number 1, ''320x200x4_8pg''), (Number 2, ''640x200x2_8pg''),
        (Number 3, ''160x200x16''), (Number 4, ''320x200x4pcjr''),
        (Number 5, ''320x200x16pcjr''), (Number 6, ''640x200x4'')]),
     (''olivetti'', [
        (Tuple 0 40, ''olivettitext40''), (Tuple 0 80, ''olivettitext80''),
        (Number 1, ''320x200x4''), (Number 2, ''640x200x2''),
        (Number 3, ''640x400x2'')])]"

definition MODES :: "string \<rightharpoonup> (mode_key \<rightharpoonup> string)" where
  "MODES adapter =
     map_option (\<lambda>es. if adapter = ''olivetti'' then dict es ++ olivetti_super else dict es)
       (dict MODES_display adapter)"

subsection \<open>Screen number switches on WIDTH\<close>

text \<open>
  \<^verbatim>\<open>TO_WIDTH\<close> as the display writes it: per adapter, for the mode \<open>x\<close> we are in,
  the mode \<open>y\<close> that WIDTH \<open>w\<close> takes us to, \<^verbatim>\<open>{x: {w: y}}\<close>.
\<close>

type_synonym switches = "(int \<times> int) list"

definition TO_WIDTH_display :: "(string \<times> (int \<times> switches) list) list" where
  "TO_WIDTH_display = [
     (''cga'', [
        (0, [(40, 0), (80, 0)]),
        (1, [(40, 1), (80, 2)]),
        (2, [(40, 1), (80, 2)])]),
     (''ega'', [
        (0, [(40, 0), (80, 0)]),
        (1, [(40, 1), (80, 2)]),
        (2, [(40, 1), (80, 2)]),
        (7, [(40, 7), (80, 8)]),
        (8, [(40, 7), (80, 8)]),
        (9, [(40, 1), (80, 9)])]),
     (''mda'', [
        (0, [(40, 0), (80, 0)])]),
     (''ega_mono'', [
        (0, [(40, 0), (80, 0)]),
        (10, [(40, 0), (80, 10)])]),
     (''hercules'', [
        (0, [(40, 0), (80, 0)]),
        (3, [(40, 0), (80, 3)])]),
     (''pcjr'', [
        (0, [(20, 3), (40, 0), (80, 0)]),
        (1, [(20, 3), (40, 1), (80, 2)]),
        (2, [(20, 3), (40, 1), (80, 2)]),
        (3, [(20, 3), (40, 1), (80, 2)]),
        (4, [(20, 3), (40, 4), (80, 2)]),
        (5, [(20, 3), (40, 5), (80, 6)]),
        (6, [(20, 3), (40, 5), (80, 6)])]),
     (''olivetti'', [
        (0, [(40, 0), (80, 0)]),
        (1, [(40, 1), (80, 2)]),
        (2, [(40, 1), (80, 2)]),
        (3, [(40, 1), (80, 3)])])]"

text \<open>
  After the update loop a table is keyed by mode numbers and by mode names. Tables are
  kept as entry lists, read with \<open>dict\<close>; \<^verbatim>\<open>d.update(e)\<close> appends the entries of
  \<open>e\<close>.
\<close>

datatype width_key = Nr int | Name string

type_synonym width_table = "(width_key \<times> switches) list"

text \<open>
  "also look up graphics modes by name": the entries of
  \<^verbatim>\<open>{_MODES[_adapter][_nr]: _switches for _nr, _switches in TO_WIDTH[_adapter].items() if _nr}\<close>.
\<close>

fun name_entries ::
  "(mode_key \<rightharpoonup> string) \<Rightarrow> (int \<times> switches) list \<Rightarrow> error + width_table"
where
  "name_entries modes [] = Inr []"
| "name_entries modes ((nr, sw) # rest) =
     (if nr = 0 then name_entries modes rest
      else (case subscr modes (Number nr) of
              Inl e \<Rightarrow> Inl e
            | Inr nm \<Rightarrow>
                (case name_entries modes rest of
                   Inl e \<Rightarrow> Inl e
                 | Inr es \<Rightarrow> Inr ((Name nm, sw) # es))))"

definition with_names :: "string \<times> (int \<times> switches) list \<Rightarrow> error + (string \<times> width_table)" where
  "with_names entry =
     (case entry of (adapter, tbl) \<Rightarrow>
        (case subscr MODES adapter of
           Inl e \<Rightarrow> Inl e
         | Inr modes \<Rightarrow>
             (case name_entries modes tbl of
                Inl e \<Rightarrow> Inl e
              | Inr es \<Rightarrow> Inr (adapter, map (\<lambda>(nr, sw). (Nr nr, sw)) tbl @ es))))"

text \<open>
  \<^verbatim>\<open>D[new] = D[old]\<close> for a dict of tables; no table is changed afterwards, so that
  the two keys share one object makes no difference here.
\<close>

definition bind_same :: "'k \<Rightarrow> 'k \<Rightarrow> ('k \<times> 'v) list \<Rightarrow> error + ('k \<times> 'v) list" where
  "bind_same new old d =
     (case subscr (dict d) old of Inl e \<Rightarrow> Inl e | Inr v \<Rightarrow> Inr (d @ [(new, v)]))"

text \<open>The module-level statements that build \<^verbatim>\<open>TO_WIDTH\<close>, in order.\<close>

definition TO_WIDTH :: "error + (string \<times> width_table) list" where
  "TO_WIDTH =
     (case mapM with_names TO_WIDTH_display of
        Inl e \<Rightarrow> Inl e
      | Inr d \<Rightarrow>
          (case bind_same ''vga'' ''ega'' d of
             Inl e \<Rightarrow> Inl e
           | Inr d' \<Rightarrow> bind_same ''tandy'' ''pcjr'' d'))"

text \<open>The lookups \<^verbatim>\<open>TO_WIDTH[adapter][mode]\<close> and \<^verbatim>\<open>TO_WIDTH[adapter][mode][width]\<close>.\<close>

definition TO_WIDTH_item :: "string \<Rightarrow> width_key \<Rightarrow> error + switches" where
  "TO_WIDTH_item adapter mode =
     (case TO_WIDTH of
        Inl e \<Rightarrow> Inl e
      | Inr d \<Rightarrow>
          (case subscr (dict d) adapter of
             Inl e \<Rightarrow> Inl e
           | Inr t \<Rightarrow> subscr (dict t) mode))"

definition to_width :: "string \<Rightarrow> width_key \<Rightarrow> int \<Rightarrow> error + int" where
  "to_width adapter mode w =
     (case TO_WIDTH_item adapter mode of
        Inl e \<Rightarrow> Inl e
      | Inr sw \<Rightarrow> subscr (dict sw) w)"

subsection \<open>Collaborators\<close>

text \<open>
  The colour mappers (\<^verbatim>\<open>colours.py\<close>) and the memory mappers and tile and sprite
  builders (\<^verbatim>\<open>framebuffer.py\<close>) are outside this development. An instance is
  represented by the constructor call that makes it: the class and its arguments.
\<close>

datatype colourmapper =
  CGA2ColourMapper | CGA4ColourMapper | CGA16ColourMapper | EGA16ColourMapper
| EGA64ColourMapper | EGA16TextColourMapper | EGA64TextColourMapper
| MonoTextColourMapper | EGAMonoColourMapper | HerculesColourMapper

record colourmap =
  cm_class :: colourmapper
  cm_adapter :: string
  cm_monitor :: string

datatype memorymapper =
  GraphicsMemoryMapper | CGAMemoryMapper | EGAMemoryMapper | Tandy6MemoryMapper

text \<open>
  \<^verbatim>\<open>TextMemoryMapper(rows, columns, video_mem_size, max_pages, mono)\<close> and
  \<^verbatim>\<open>mapper(height, width, video_mem_size, max_pages, interleave_times, bank_size, bitsperpixel)\<close>;
  the last field of the latter is what \<^verbatim>\<open>set_planes_used\<close> was called with, if it was.
\<close>

datatype memorymap =
  TextMemoryMap int int int "int option" bool
| GraphicsMemoryMap memorymapper int int int "int option" int int int "int list option"

fun mm_max_pages :: "memorymap \<Rightarrow> int option" where
  "mm_max_pages (TextMemoryMap rows columns vms max_pages mn) = max_pages"
| "mm_max_pages (GraphicsMemoryMap cls h w vms max_pages il bank bpp planes) = max_pages"

fun set_planes_used :: "int list \<Rightarrow> memorymap \<Rightarrow> memorymap" where
  "set_planes_used planes (GraphicsMemoryMap cls h w vms max_pages il bank bpp _) =
     GraphicsMemoryMap cls h w vms max_pages il bank bpp (Some planes)"
| "set_planes_used planes m = m"

datatype builder =
  PackedTileBuilder int | PlanedTileBuilder int | PackedSpriteBuilder int | PlanedSpriteBuilder int

subsection \<open>Video mode classes\<close>

text \<open>
  One record for all mode objects. The attributes that the base class leaves at
  \<^verbatim>\<open>None\<close>, and those that only graphics modes have, are options.
\<close>

record VideoMode =
  name :: string
  height :: int
  width :: int
  font_height :: int
  font_width :: int
  pixel_height :: int
  pixel_width :: int
  attr :: int
  is_text_mode :: "bool option"
  memorymap :: "memorymap option"
  colourmap :: colourmap
  bitsperpixel :: "int option"
  cursor_index :: "int option"
  build_tile :: "builder option"
  sprite_builder :: "builder option"

definition VideoMode_init ::
  "string \<Rightarrow> int \<Rightarrow> int \<Rightarrow> int \<Rightarrow> int \<Rightarrow> int \<Rightarrow> colourmap \<Rightarrow> VideoMode" where
  "VideoMode_init nm h w fh fw a cm =
     \<lparr>name = nm, height = h, width = w, font_height = fh, font_width = fw,
      pixel_height = h * fh, pixel_width = w * fw, attr = a,
      is_text_mode = None, memorymap = None, colourmap = cm,
      bitsperpixel = None, cursor_index = None, build_tile = None, sprite_builder = None\<rparr>"

text \<open>\<^verbatim>\<open>x // y\<close> raises \<^verbatim>\<open>ZeroDivisionError\<close> at \<open>y = 0\<close> and rounds down otherwise.\<close>

definition floordiv :: "int \<Rightarrow> int \<Rightarrow> error + int" where
  "floordiv x y = (if y = 0 then Inl ZeroDivisionError else Inr (x div y))"

definition pixel_to_text_pos :: "VideoMode \<Rightarrow> int \<Rightarrow> int \<Rightarrow> error + (int \<times> int)" where
  "pixel_to_text_pos self x y =
     (case floordiv y (font_height self) of
        Inl e \<Rightarrow> Inl e
      | Inr r \<Rightarrow>
          (case floordiv x (font_width self) of
             Inl e \<Rightarrow> Inl e
           | Inr c \<Rightarrow> Inr (1 + r, 1 + c)))"

definition text_to_pixel_pos :: "VideoMode \<Rightarrow> int \<Rightarrow> int \<Rightarrow> int \<times> int" where
  "text_to_pixel_pos self row col = ((col - 1) * font_width self, (row - 1) * font_height self)"

datatype layout = TextMode | GraphicsMode | CGAMode | EGAMode | Tandy6Mode

definition TextMode_init ::
  "string \<Rightarrow> int \<Rightarrow> int \<Rightarrow> int \<Rightarrow> int \<Rightarrow> int \<Rightarrow> int \<Rightarrow> int option \<Rightarrow> bool \<Rightarrow> colourmap \<Rightarrow> VideoMode"
where
  "TextMode_init nm rows columns fh fw a video_mem_size max_pages mn cm =
     (VideoMode_init nm rows columns fh fw a cm)\<lparr>
        is_text_mode := Some True,
        memorymap := Some (TextMemoryMap rows columns video_mem_size max_pages mn)\<rparr>"

text \<open>The class attributes that the subclasses of \<^verbatim>\<open>GraphicsMode\<close> override.\<close>

fun memorymapper_of :: "layout \<Rightarrow> memorymapper" where
  "memorymapper_of CGAMode = CGAMemoryMapper"
| "memorymapper_of EGAMode = EGAMemoryMapper"
| "memorymapper_of Tandy6Mode = Tandy6MemoryMapper"
| "memorymapper_of _ = GraphicsMemoryMapper"

text \<open>
  The base class has \<^verbatim>\<open>_tile_builder = lambda _: None\<close> and the same for the sprite
  builder: read through \<^verbatim>\<open>self\<close> this is a bound method, and calling it with the bit
  depth raises \<^verbatim>\<open>TypeError\<close>.
\<close>

fun tile_builder :: "layout \<Rightarrow> int \<Rightarrow> error + builder" where
  "tile_builder CGAMode bpp = Inr (PackedTileBuilder bpp)"
| "tile_builder EGAMode bpp = Inr (PlanedTileBuilder bpp)"
| "tile_builder Tandy6Mode bpp = Inr (PackedTileBuilder bpp)"
| "tile_builder _ bpp = Inl TypeError"

fun sprite_builder_of :: "layout \<Rightarrow> int \<Rightarrow> error + builder" where
  "sprite_builder_of CGAMode bpp = Inr (PackedSpriteBuilder bpp)"
| "sprite_builder_of EGAMode bpp = Inr (PlanedSpriteBuilder bpp)"
| "sprite_builder_of Tandy6Mode bpp = Inr (PlanedSpriteBuilder bpp)"
| "sprite_builder_of _ bpp = Inl TypeError"

text \<open>The parameter bundles of \<^verbatim>\<open>_GRAPHICS_MODES\<close> and \<^verbatim>\<open>_TEXT_MODES\<close>.\<close>

record graphics_mode_data =
  g_width :: int
  g_height :: int
  g_rows :: int
  g_columns :: int
  g_attr :: int
  g_bitsperpixel :: int
  g_interleave_times :: int
  g_bank_size :: int
  g_max_pages :: "int option"
  g_cursor_index :: "int option"
  g_planes_used :: "int list option"
  g_layout :: layout
  g_colourmap :: colourmapper

record text_mode_data =
  t_rows :: int
  t_columns :: int
  t_font_height :: int
  t_font_width :: int
  t_attr :: int
  t_max_pages :: int
  t_mono :: bool
  t_layout :: layout
  t_colourmap :: colourmapper

text \<open>
  \<^verbatim>\<open>GraphicsMode.__init__\<close>, called as \<open>cls\<close> with the keyword arguments of a
  bundle. The call itself raises \<^verbatim>\<open>TypeError\<close> when \<open>cls\<close> is \<^verbatim>\<open>TextMode\<close>,
  which takes other arguments, and when a class other than \<^verbatim>\<open>EGAMode\<close> is given
  \<^verbatim>\<open>planes_used\<close>. In the body \<^verbatim>\<open>font_width\<close> is computed before
  \<^verbatim>\<open>font_height\<close>, which is \<^verbatim>\<open>-(-height // rows)\<close>; the builders come last.
  \<^verbatim>\<open>EGAMode.__init__\<close> then sets the planes, by default \<^verbatim>\<open>range(4)\<close>.
\<close>

definition GraphicsMode_init ::
  "layout \<Rightarrow> string \<Rightarrow> int \<Rightarrow> colourmap \<Rightarrow> graphics_mode_data \<Rightarrow> error + VideoMode" where
  "GraphicsMode_init cls nm video_mem_size cm d =
     (if cls = TextMode \<or> (cls \<noteq> EGAMode \<and> g_planes_used d \<noteq> None) then Inl TypeError
      else
        (case floordiv (g_width d) (g_columns d) of
           Inl e \<Rightarrow> Inl e
         | Inr fw \<Rightarrow>
             (case floordiv (- g_height d) (g_rows d) of
                Inl e \<Rightarrow> Inl e
              | Inr q \<Rightarrow>
                  (case tile_builder cls (g_bitsperpixel d) of
                     Inl e \<Rightarrow> Inl e
                   | Inr tiles \<Rightarrow>
                       (case sprite_builder_of cls (g_bitsperpixel d) of
                          Inl e \<Rightarrow> Inl e
                        | Inr sprites \<Rightarrow>
                            let fh = - q;
                                mm = GraphicsMemoryMap (memorymapper_of cls) (g_height d)
                                       (g_width d) video_mem_size (g_max_pages d)
                                       (g_interleave_times d) (g_bank_size d)
                                       (g_bitsperpixel d) None;
                                self = (VideoMode_init nm (g_rows d) (g_columns d) fh fw
                                          (g_attr d) cm)\<lparr>
                                         pixel_height := g_height d,
                                         pixel_width := g_width d,
                                         is_text_mode := Some False,
                                         bitsperpixel := Some (g_bitsperpixel d),
                                         memorymap := Some mm,
                                         cursor_index := g_cursor_index d,
                                         build_tile := Some tiles,
                                         sprite_builder := Some sprites\<rparr>
                            in Inr (if cls = EGAMode
                                    then self\<lparr>memorymap := Some (set_planes_used
                                           (case g_planes_used d of
                                              None \<Rightarrow> [0, 1, 2, 3]
                                            | Some ps \<Rightarrow> ps) mm)\<rparr>
                                    else self))))))"

subsection \<open>Mode definitions\<close>

text \<open>
  The values of \<^verbatim>\<open>_GRAPHICS_MODES\<close> are dict objects, and two names can be bound to
  one object. The table is therefore a map from names to references together with a
  store of the objects.
\<close>

record 'v table =
  refs :: "string \<rightharpoonup> nat"
  store :: "nat \<rightharpoonup> 'v"

text \<open>A dict display allocates one fresh object per entry.\<close>

fun alloc :: "nat \<Rightarrow> (string \<times> 'v) list \<Rightarrow> 'v table \<Rightarrow> 'v table" where
  "alloc n [] t = t"
| "alloc n ((k, v) # kvs) t =
     alloc (Suc n) kvs (t\<lparr>refs := (refs t)(k \<mapsto> n), store := (store t)(n \<mapsto> v)\<rparr>)"

definition table_of :: "(string \<times> 'v) list \<Rightarrow> 'v table" where
  "table_of kvs = alloc 0 kvs \<lparr>refs = Map.empty, store = Map.empty\<rparr>"

text \<open>\<^verbatim>\<open>T[k]\<close>: the object that \<open>k\<close> is bound to.\<close>

definition deref :: "'v table \<Rightarrow> string \<Rightarrow> error + 'v" where
  "deref t k =
     (case subscr (refs t) k of Inl e \<Rightarrow> Inl e | Inr r \<Rightarrow> subscr (store t) r)"

text \<open>\<^verbatim>\<open>T[new] = T[old]\<close> binds \<open>new\<close> to the very object of \<open>old\<close>.\<close>

definition bind_alias :: "string \<Rightarrow> string \<Rightarrow> 'v table \<Rightarrow> error + 'v table" where
  "bind_alias new old t =
     (case subscr (refs t) old of
        Inl e \<Rightarrow> Inl e
      | Inr r \<Rightarrow> Inr (t\<lparr>refs := (refs t)(new \<mapsto> r)\<rparr>))"

text \<open>\<^verbatim>\<open>T[k]['max_pages'] = v\<close> changes the object that \<open>k\<close> is bound to, in place.\<close>

definition set_max_pages ::
  "string \<Rightarrow> int option \<Rightarrow> graphics_mode_data table \<Rightarrow> error + graphics_mode_data table" where
  "set_max_pages k v t =
     (case subscr (refs t) k of
        Inl e \<Rightarrow> Inl e
      | Inr r \<Rightarrow>
          (case subscr (store t) r of
             Inl e \<Rightarrow> Inl e
           | Inr d \<Rightarrow> Inr (t\<lparr>store := (store t)(r \<mapsto> d\<lparr>g_max_pages := v\<rparr>)\<rparr>)))"

definition GRAPHICS_MODES_display :: "(string \<times> graphics_mode_data) list" where
  "GRAPHICS_MODES_display = [
     (''320x200x4'', \<lparr>
        g_width = 320, g_height = 200, g_rows = 25, g_columns = 40, g_attr = 3,
        g_bitsperpixel = 2, g_interleave_times = 2, g_bank_size = 0x2000,
        g_max_pages = Some 1, g_cursor_index = None, g_planes_used = None,
        g_layout = CGAMode, g_colourmap = CGA4ColourMapper\<rparr>),
     (''640x200x2'', \<lparr>
        g_width = 640, g_height = 200, g_rows = 25, g_columns = 80, g_attr = 1,
        g_bitsperpixel = 1, g_interleave_times = 2, g_bank_size = 0x2000,
        g_max_pages = Some 1, g_cursor_index = None, g_planes_used = None,
        g_layout = CGAMode, g_colourmap = CGA2ColourMapper\<rparr>),
     (''160x200x16'', \<lparr>
        g_width = 160, g_height = 200, g_rows = 25, g_columns = 20, g_attr = 15,
        g_bitsperpixel = 4, g_interleave_times = 2, g_bank_size = 0x2000,
        g_max_pages = Some 8, g_cursor_index = Some 3, g_planes_used = None,
        g_layout = CGAMode, g_colourmap = CGA16ColourMapper\<rparr>),
     (''320x200x4pcjr'', \<lparr>
        g_width = 320, g_height = 200, g_rows = 25, g_columns = 40, g_attr = 3,
        g_bitsperpixel = 2, g_interleave_times = 2, g_bank_size = 0x2000,
        g_max_pages = Some 8, g_cursor_index = Some 3, g_planes_used = None,
        g_layout = CGAMode, g_colourmap = CGA4ColourMapper\<rparr>),
     (''320x200x16pcjr'', \<lparr>
        g_width = 320, g_height = 200, g_rows = 25, g_columns = 40, g_attr = 15,
        g_bitsperpixel = 4, g_interleave_times = 4, g_bank_size = 0x2000,
        g_max_pages = Some 4, g_cursor_index = Some 3, g_planes_used = None,
        g_layout = CGAMode, g_colourmap = CGA16ColourMapper\<rparr>),
     (''640x200x4'', \<lparr>
        g_width = 640, g_height = 200, g_rows = 25, g_columns = 80, g_attr = 3,
        g_bitsperpixel = 2, g_interleave_times = 4, g_bank_size = 0x2000,
        g_max_pages = Some 4, g_cursor_index = Some 3, g_planes_used = None,
        g_layout = Tandy6Mode, g_colourmap = CGA4ColourMapper\<rparr>),
     (''320x200x16'', \<lparr>
        g_width = 320, g_height = 200, g_rows = 25, g_columns = 40, g_attr = 15,
        g_bitsperpixel = 4, g_interleave_times = 1, g_bank_size = 0x2000,
        g_max_pages = None, g_cursor_index = None, g_planes_used = None,
        g_layout = EGAMode, g_colourmap = EGA16ColourMapper\<rparr>),
     (''640x200x16'', \<lparr>
        g_width = 640, g_height = 200, g_rows = 25, g_columns = 80, g_attr = 15,
        g_bitsperpixel = 4, g_interleave_times = 1, g_bank_size = 0x4000,
        g_max_pages = None, g_cursor_index = None, g_planes_used = None,
        g_layout = EGAMode, g_colourmap = EGA16ColourMapper\<rparr>),
     (''640x350x16'', \<lparr>
        g_width = 640, g_height = 350, g_rows = 25, g_columns = 80, g_attr = 15,
        g_bitsperpixel = 4, g_interleave_times = 1, g_bank_size = 0x8000,
        g_max_pages = None, g_cursor_index = None, g_planes_used = None,
        g_layout = EGAMode, g_colourmap = EGA64ColourMapper\<rparr>),
     (''640x350x4'', \<lparr>
        g_width = 640, g_height = 350, g_rows = 25, g_columns = 80, g_attr = 1,
        g_bitsperpixel = 2, g_interleave_times = 1, g_bank_size = 0x8000,
        g_max_pages = None, g_cursor_index = None, g_planes_used = Some [1, 3],
        g_layout = EGAMode, g_colourmap = EGAMonoColourMapper\<rparr>),
     (''640x400x2'', \<lparr>
        g_width = 640, g_height = 400, g_rows = 25, g_columns = 80, g_attr = 1,
        g_bitsperpixel = 1, g_interleave_times = 4, g_bank_size = 0x2000,
        g_max_pages = Some 1, g_cursor_index = None, g_planes_used = None,
        g_layout = CGAMode, g_colourmap = CGA2ColourMapper\<rparr>),
     (''720x348x2'', \<lparr>
        g_width = 720, g_height = 348, g_rows = 25, g_columns = 80, g_attr = 1,
        g_bitsperpixel = 1, g_interleave_times = 4, g_bank_size = 0x2000,
        g_max_pages = Some 2, g_cursor_index = None, g_planes_used = None,
        g_layout = CGAMode, g_colourmap = HerculesColourMapper\<rparr>)]"

text \<open>
  The module-level statements that build \<^verbatim>\<open>_GRAPHICS_MODES\<close>, in order: the display,
  then the "tandy/pcjr 8-page versions of standard CGA modes".
\<close>

definition GRAPHICS_MODES :: "error + graphics_mode_data table" where
  "GRAPHICS_MODES =
     (case bind_alias ''320x200x4_8pg'' ''320x200x4'' (table_of GRAPHICS_MODES_display) of
        Inl e \<Rightarrow> Inl e
      | Inr t1 \<Rightarrow>
          (case bind_alias ''640x200x2_8pg'' ''640x200x2'' t1 of
             Inl e \<Rightarrow> Inl e
           | Inr t2 \<Rightarrow>
               (case set_max_pages ''320x200x4_8pg'' (Some 8) t2 of
                  Inl e \<Rightarrow> Inl e
                | Inr t3 \<Rightarrow> set_max_pages ''640x200x2_8pg'' (Some 8) t3)))"

definition TEXT_MODES :: "string \<rightharpoonup> text_mode_data" where
  "TEXT_MODES = dict [
     (''vgatext40'', \<lparr>
        t_rows = 25, t_columns = 40, t_font_height = 16, t_font_width = 9, t_attr = 7,
        t_max_pages = 8, t_mono = False, t_layout = TextMode, t_colourmap = EGA64TextColourMapper\<rparr>),
     (''vgatext80'', \<lparr>
        t_rows = 25, t_columns = 80, t_font_height = 16, t_font_width = 9, t_attr = 7,
        t_max_pages = 4, t_mono = False, t_layout = TextMode, t_colourmap = EGA64TextColourMapper\<rparr>),
     (''egatext40'', \<lparr>
        t_rows = 25, t_columns = 40, t_font_height = 14, t_font_width = 8, t_attr = 7,
        t_max_pages = 8, t_mono = False, t_layout = TextMode, t_colourmap = EGA64TextColourMapper\<rparr>),
     (''egatext80'', \<lparr>
        t_rows = 25, t_columns = 80, t_font_height = 14, t_font_width = 8, t_attr = 7,
        t_max_pages = 4, t_mono = False, t_layout = TextMode, t_colourmap = EGA64TextColourMapper\<rparr>),
     (''ega_monotext40'', \<lparr>
        t_rows = 25, t_columns = 40, t_font_height = 14, t_font_width = 8, t_attr = 7,
        t_max_pages = 8, t_mono = True, t_layout = TextMode, t_colourmap = MonoTextColourMapper\<rparr>),
     (''ega_monotext80'', \<lparr>
        t_rows = 25, t_columns = 80, t_font_height = 14, t_font_width = 8, t_attr = 7,
        t_max_pages = 4, t_mono = True, t_layout = TextMode, t_colourmap = MonoTextColourMapper\<rparr>),
     (''mdatext40'', \<lparr>
        t_rows = 25, t_columns = 40, t_font_height = 14, t_font_width = 9, t_attr = 7,
        t_max_pages = 1, t_mono = True, t_layout = TextMode, t_colourmap = MonoTextColourMapper\<rparr>),
     (''mdatext80'', \<lparr>
        t_rows = 25, t_columns = 80, t_font_height = 14, t_font_width = 9, t_attr = 7,
        t_max_pages = 1, t_mono = True, t_layout = TextMode, t_colourmap = MonoTextColourMapper\<rparr>),
     (''tandytext40'', \<lparr>
        t_rows = 25, t_columns = 40, t_font_height = 9, t_font_width = 8, t_attr = 7,
        t_max_pages = 8, t_mono = False, t_layout = TextMode, t_colourmap = EGA16TextColourMapper\<rparr>),
     (''tandytext80'', \<lparr>
        t_rows = 25, t_columns = 80, t_font_height = 9, t_font_width = 8, t_attr = 7,
        t_max_pages = 4, t_mono = False, t_layout = TextMode, t_colourmap = EGA16TextColourMapper\<rparr>),
     (''cgatext40'', \<lparr>
        t_rows = 25, t_columns = 40, t_font_height = 8, t_font_width = 8, t_attr = 7,
        t_max_pages = 8, t_mono = False, t_layout = TextMode, t_colourmap = EGA16TextColourMapper\<rparr>),
     (''cgatext80'', \<lparr>
        t_rows = 25, t_columns = 80, t_font_height = 8, t_font_width = 8, t_attr = 7,
        t_max_pages = 4, t_mono = False, t_layout = TextMode, t_colourmap = EGA16TextColourMapper\<rparr>),
     (''olivettitext40'', \<lparr>
        t_rows = 25, t_columns = 40, t_font_height = 16, t_font_width = 8, t_attr = 7,
        t_max_pages = 8, t_mono = False, t_layout = TextMode, t_colourmap = EGA16ColourMapper\<rparr>),
     (''olivettitext80'', \<lparr>
        t_rows = 25, t_columns = 80, t_font_height = 16, t_font_width = 8, t_attr = 7,
        t_max_pages = 4, t_mono = False, t_layout = TextMode, t_colourmap = EGA16ColourMapper\<rparr>)]"

subsection \<open>Video mode factory\<close>

text \<open>The subscription \<^verbatim>\<open>_GRAPHICS_MODES[name]\<close> on the table as the module has built it.\<close>

definition GRAPHICS_MODES_item :: "string \<Rightarrow> error + graphics_mode_data" where
  "GRAPHICS_MODES_item nm = (case GRAPHICS_MODES of Inl e \<Rightarrow> Inl e | Inr t \<Rightarrow> deref t nm)"

definition get_graphics_mode :: "string \<Rightarrow> string \<Rightarrow> string \<Rightarrow> int \<Rightarrow> error + VideoMode" where
  "get_graphics_mode nm adapter monitor video_mem_size =
     (case GRAPHICS_MODES_item nm of
        Inl e \<Rightarrow> Inl e
      | Inr mode_data \<Rightarrow>
          GraphicsMode_init (g_layout mode_data) nm video_mem_size
            \<lparr>cm_class = g_colourmap mode_data, cm_adapter = adapter, cm_monitor = monitor\<rparr>
            mode_data)"

definition get_text_mode :: "string \<Rightarrow> string \<Rightarrow> string \<Rightarrow> int \<Rightarrow> error + VideoMode" where
  "get_text_mode nm adapter monitor video_mem_size =
     (case subscr TEXT_MODES nm of
        Inl e \<Rightarrow> Inl e
      | Inr mode_data \<Rightarrow>
          Inr (TextMode_init nm (t_rows mode_data) (t_columns mode_data)
                 (t_font_height mode_data) (t_font_width mode_data) (t_attr mode_data)
                 video_mem_size (Some (t_max_pages mode_data)) (t_mono mode_data)
                 \<lparr>cm_class = t_colourmap mode_data, cm_adapter = adapter,
                  cm_monitor = monitor\<rparr>))"

text \<open>
  \<^verbatim>\<open>get_mode\<close>: the body of the \<^verbatim>\<open>try\<close>, and the handler that turns a
  \<^verbatim>\<open>KeyError\<close>, and no other exception, into the BASIC error.
\<close>

definition get_mode_body :: "int \<Rightarrow> int \<Rightarrow> string \<Rightarrow> string \<Rightarrow> int \<Rightarrow> error + VideoMode" where
  "get_mode_body number w adapter monitor video_mem_size =
     (case subscr MODES adapter of
        Inl e \<Rightarrow> Inl e
      | Inr modes \<Rightarrow>
          if number \<noteq> 0
          then (case subscr modes (Number number) of
                  Inl e \<Rightarrow> Inl e
                | Inr nm \<Rightarrow> get_graphics_mode nm adapter monitor video_mem_size)
          else (case subscr modes (Tuple 0 w) of
                  Inl e \<Rightarrow> Inl e
                | Inr nm \<Rightarrow> get_text_mode nm adapter monitor video_mem_size))"

definition get_mode :: "int \<Rightarrow> int \<Rightarrow> string \<Rightarrow> string \<Rightarrow> int \<Rightarrow> error + VideoMode" where
  "get_mode number w adapter monitor video_mem_size =
     (case get_mode_body number w adapter monitor video_mem_size of
        Inl KeyError \<Rightarrow> Inl IFC
      | r \<Rightarrow> r)"

subsection \<open>Video mode number\<close>

definition MODE_NUMBER :: "string \<rightharpoonup> int" where
  "MODE_NUMBER = dict [
     (''640x200x2'', 6), (''160x200x16'', 8), (''320x200x16pcjr'', 9),
     (''640x200x4'', 10), (''320x200x16'', 13), (''640x200x16'', 14),
     (''640x350x4'', 15), (''640x350x16'', 16), (''640x400x2'', 0x40),
     (''320x200x4pcjr'', 4), (''320x200x4'', 4)]"

text \<open>
  \<^verbatim>\<open>get_mode_number\<close>. The attribute \<^verbatim>\<open>mode_5\<close> of the mode's colour mapper is
  read through the parameter \<open>mode_5\<close>; it is a boolean, which counts as 0 or 1 in the sum.
\<close>

definition get_mode_number :: "(colourmap \<Rightarrow> bool) \<Rightarrow> VideoMode \<Rightarrow> int \<Rightarrow> int" where
  "get_mode_number mode_5 mode colorswitch =
     (if is_text_mode mode = Some True then
        (if name mode \<in> {''mdatext80'', ''ega_monotext80''} then 7
         else (if width mode = 40 then 1 else 0) * 2 + colorswitch mod 2)
      else if name mode = ''320x200x4'' then 4 + (if mode_5 (colourmap mode) then 1 else 0)
      else (case subscr MODE_NUMBER (name mode) of
              Inl e \<Rightarrow> 0xff
            | Inr n \<Rightarrow> n))"

section \<open>Notions used in the statements\<close>

text \<open>A call returns, as opposed to raising.\<close>

definition is_ok :: "error + 'a \<Rightarrow> bool" where
  "is_ok r = (case r of Inl e \<Rightarrow> False | Inr v \<Rightarrow> True)"

text \<open>
  The name that the adapter's table gives for the requested mode, if it defines it: the
  key is the number when it is not zero and the tuple \<^verbatim>\<open>(0, width)\<close> otherwise.
\<close>

definition requested_mode :: "string \<Rightarrow> int \<Rightarrow> int \<Rightarrow> string option" where
  "requested_mode adapter number w =
     (case MODES adapter of
        None \<Rightarrow> None
      | Some modes \<Rightarrow> modes (if number \<noteq> 0 then Number number else Tuple 0 w))"

text \<open>The key of the display whose object a name of \<^verbatim>\<open>_GRAPHICS_MODES\<close> is bound to.\<close>

definition base_name :: "string \<Rightarrow> string" where
  "base_name nm =
     (if nm = ''320x200x4_8pg'' then ''320x200x4''
      else if nm = ''640x200x2_8pg'' then ''640x200x2'' else nm)"

text \<open>
  What \<^verbatim>\<open>_GRAPHICS_MODES[name]\<close> holds once the module is loaded, read off the display:
  the two objects that were given a second name have \<^verbatim>\<open>max_pages\<close> 8.
\<close>

definition final_entry :: "string \<Rightarrow> error + graphics_mode_data" where
  "final_entry nm =
     (case map_of GRAPHICS_MODES_display (base_name nm) of
        None \<Rightarrow> Inl KeyError
      | Some d \<Rightarrow> Inr (if base_name nm \<in> {''320x200x4'', ''640x200x2''}
                       then d\<lparr>g_max_pages := Some 8\<rparr> else d))"

text \<open>The keys of \<^verbatim>\<open>_GRAPHICS_MODES\<close>.\<close>

definition graphics_names :: "string list" where
  "graphics_names = ''320x200x4_8pg'' # ''640x200x2_8pg'' # map fst GRAPHICS_MODES_display"

text \<open>
  The shifts of \<open>k\<close> fields of \<open>b\<close> bits each, most significant field first, and, on
  Python ints, the fields of one byte and the byte of a list of fields under these shifts.
\<close>

fun desc_shifts :: "nat \<Rightarrow> nat \<Rightarrow> nat list" where
  "desc_shifts b 0 = []"
| "desc_shifts b (Suc k) = k * b # desc_shifts b k"

definition unpack_nat :: "nat \<Rightarrow> nat \<Rightarrow> nat \<Rightarrow> nat list" where
  "unpack_nat b k n = map (\<lambda>s. drop_bit s n AND mask b) (desc_shifts b k)"

definition pack_nat :: "nat \<Rightarrow> nat \<Rightarrow> nat list \<Rightarrow> nat" where
  "pack_nat b k vs = sum_list (map (\<lambda>(v, s). push_bit s (v AND mask b)) (zip vs (desc_shifts b k)))"

section \<open>Packing and unpacking\<close>

lemma length_desc_shifts [simp]: "length (desc_shifts b k) = k"
  by (induction k) simp_all

lemma desc_shifts_le: "s \<in> set (desc_shifts b k) \<Longrightarrow> s + b \<le> k * b"
  by (induction k) auto

lemma take_bit_split:
  "take_bit (s + k) (n::nat) = push_bit s (take_bit k (drop_bit s n)) + take_bit s n"
proof -
  have "push_bit s (drop_bit s (take_bit (s + k) n)) + take_bit s (take_bit (s + k) n)
      = take_bit (s + k) n"
    by (rule bits_ident)
  then show ?thesis by (simp add: drop_bit_take_bit min_def)
qed

lemma pack_unpack_nat: "pack_nat b k (unpack_nat b k n) = take_bit (k * b) n"
proof (induction k)
  case 0
  show ?case by (simp add: pack_nat_def unpack_nat_def)
next
  case (Suc k)
  have "pack_nat b (Suc k) (unpack_nat b (Suc k) n)
      = push_bit (k * b) (take_bit b (drop_bit (k * b) n)) + pack_nat b k (unpack_nat b k n)"
    by (simp add: pack_nat_def unpack_nat_def take_bit_eq_mask)
  also have "\<dots> = take_bit (k * b + b) n"
    by (simp add: Suc.IH take_bit_split)
  finally show ?case by (simp add: add.commute)
qed

lemma pack_nat_less: "pack_nat b k vs < 2 ^ (k * b)"
proof (induction k arbitrary: vs)
  case 0
  show ?case by (simp add: pack_nat_def)
next
  case (Suc k)
  show ?case
  proof (cases vs)
    case Nil
    then show ?thesis by (simp add: pack_nat_def)
  next
    case (Cons v vs')
    have "take_bit b v < 2 ^ b" by simp
    then have "take_bit b v + 1 \<le> 2 ^ b" by linarith
    then have "(take_bit b v + 1) * 2 ^ (k * b) \<le> 2 ^ b * 2 ^ (k * b)"
      by (rule mult_le_mono1)
    moreover have "pack_nat b k vs' < 2 ^ (k * b)" by (rule Suc.IH)
    ultimately have "take_bit b v * 2 ^ (k * b) + pack_nat b k vs' < 2 ^ (b + k * b)"
      by (simp add: power_add algebra_simps)
    with Cons show ?thesis
      by (simp add: pack_nat_def push_bit_eq_mult take_bit_eq_mask add.commute)
  qed
qed

lemma field_of_sum:
  assumes "s + b \<le> m"
  shows "take_bit b (drop_bit s (push_bit m v + x)) = take_bit b (drop_bit s (x::nat))"
proof -
  have "take_bit (s + b) (push_bit m v + x) = take_bit (s + b) x"
  proof -
    from assms obtain d where m: "m = s + b + d" by (auto simp: le_iff_add)
    have "(v * 2 ^ d * 2 ^ (s + b) + x) mod 2 ^ (s + b) = x mod 2 ^ (s + b)"
      by simp
    then show ?thesis
      by (simp add: take_bit_eq_mod push_bit_eq_mult m power_add mult.assoc mult.commute)
  qed
  then have "drop_bit s (take_bit (s + b) (push_bit m v + x)) = drop_bit s (take_bit (s + b) x)"
    by simp
  then show ?thesis by (simp add: drop_bit_take_bit)
qed

lemma top_field:
  assumes "x < 2 ^ m" and "v < 2 ^ b"
  shows "take_bit b (drop_bit m (push_bit m v + (x::nat))) = v"
proof -
  from assms(1) have "(v * 2 ^ m + x) div 2 ^ m = v" by simp
  with assms(2) show ?thesis
    by (simp add: drop_bit_eq_div push_bit_eq_mult take_bit_nat_eq_self)
qed

lemma unpack_pack_nat:
  assumes "length vs = k" and "\<forall>v \<in> set vs. v < 2 ^ b"
  shows "unpack_nat b k (pack_nat b k vs) = vs"
  using assms
proof (induction vs arbitrary: k)
  case Nil
  then show ?case by (simp add: unpack_nat_def)
next
  case (Cons v vs)
  then obtain k' where k: "k = Suc k'" and len: "length vs = k'" by (cases k) auto
  from Cons.prems have v: "v < 2 ^ b" and vs: "\<forall>v \<in> set vs. v < 2 ^ b" by simp_all
  let ?x = "pack_nat b k' vs"
  have N: "pack_nat b (Suc k') (v # vs) = push_bit (k' * b) v + ?x"
    using v by (simp add: pack_nat_def take_bit_eq_mask[symmetric] take_bit_nat_eq_self)
  have hd: "take_bit b (drop_bit (k' * b) (push_bit (k' * b) v + ?x)) = v"
    using pack_nat_less v by (rule top_field)
  have tl: "map (\<lambda>s. take_bit b (drop_bit s (push_bit (k' * b) v + ?x))) (desc_shifts b k')
          = map (\<lambda>s. take_bit b (drop_bit s ?x)) (desc_shifts b k')"
    by (rule map_cong[OF refl]) (simp add: field_of_sum desc_shifts_le)
  from Cons.IH[OF len vs] have "map (\<lambda>s. take_bit b (drop_bit s ?x)) (desc_shifts b k') = vs"
    by (simp add: unpack_nat_def take_bit_eq_mask)
  with hd tl show ?case
    by (simp add: unpack_nat_def N k take_bit_eq_mask[symmetric])
qed

lemma zip_concat_replicate:
  assumes "\<forall>c \<in> set cs. length c = length sh"
  shows "zip (concat cs) (concat (replicate (length cs) sh)) = concat (map (\<lambda>c. zip c sh) cs)"
  using assms by (induction cs) simp_all

lemma chunks_of_concat:
  assumes "\<forall>c \<in> set cs. length c = k"
  shows "map (\<lambda>off. g (take k (drop off (concat cs)))) (map (\<lambda>i. i * k) [0 ..< length cs])
       = map g cs"
  using assms
proof (induction cs)
  case Nil
  show ?case by simp
next
  case (Cons c cs)
  then have c: "length c = k" and cs: "\<forall>c \<in> set cs. length c = k" by simp_all
  have "map (\<lambda>off. g (take k (drop off (concat (c # cs))))) (map (\<lambda>i. i * k) [0 ..< length (c # cs)])
      = g (take k (c @ concat cs))
        # map (\<lambda>i. g (take k (drop (Suc i * k) (c @ concat cs)))) [0 ..< length cs]"
    by (simp add: map_upt_Suc comp_def del: upt_Suc)
  also have "g (take k (c @ concat cs)) = g c" using c by simp
  also have "map (\<lambda>i. g (take k (drop (Suc i * k) (c @ concat cs)))) [0 ..< length cs]
      = map (\<lambda>i. g (take k (drop (i * k) (concat cs)))) [0 ..< length cs]"
    using c by simp
  also have "\<dots> = map g cs" using Cons.IH[OF cs] by (simp add: comp_def)
  finally show ?case by simp
qed

lemma range_step_multiple:
  "0 < k \<Longrightarrow> range_step (k * n) k = Inr (map (\<lambda>i. i * k) [0 ..< n])"
proof -
  assume k: "0 < k"
  then obtain j where j: "k = Suc j" by (cases k) simp_all
  have "(j + Suc j * n) div Suc j = n + j div Suc j" by (rule div_mult_self2) simp
  then have "(Suc j * n + Suc j - 1) div Suc j = n" by (simp add: add.commute)
  with k show ?thesis by (simp add: range_step_def j)
qed

lemma split_into_chunks:
  assumes "0 < k" and "length xs = n * k"
  shows "\<exists>cs. concat cs = xs \<and> length cs = n \<and> (\<forall>c \<in> set cs. length c = k)"
  using assms(2)
proof (induction n arbitrary: xs)
  case 0
  then show ?case by simp
next
  case (Suc n)
  then have "length (drop k xs) = n * k" by simp
  from Suc.IH[OF this] obtain cs where cs: "concat cs = drop k xs" "length cs = n"
    "\<forall>c \<in> set cs. length c = k" by blast
  from Suc.prems have "length (take k xs) = k" by simp
  with cs have "concat (take k xs # cs) = xs \<and> length (take k xs # cs) = Suc n
      \<and> (\<forall>c \<in> set (take k xs # cs). length c = k)"
    by simp
  then show ?case by blast
qed

lemma bytearray_bytes: "\<forall>n \<in> set ns. n < 256 \<Longrightarrow> bytearray ns = Inr (map of_nat ns)"
  by (simp add: bytearray_def)

lemma unat_of_nat_byte: "n < 256 \<Longrightarrow> unat (of_nat n :: byte) = n"
  by (simp add: unat_of_nat)

lemma unpack_nat_less:
  assumes "v \<in> set (unpack_nat b k n)"
  shows "v < 2 ^ b"
proof -
  from assms obtain s where "v = take_bit b (drop_bit s n)"
    by (auto simp: unpack_nat_def take_bit_eq_mask)
  then show ?thesis by simp
qed

lemma shift_schedule_depth:
  assumes "b \<in> {1, 2, 4, 8}"
  shows "shift_schedule (8 div b) = Inr (mask b, desc_shifts b (8 div b))"
proof -
  have "shift_schedule (8 div 1) = Inr (mask 1, desc_shifts 1 (8 div 1))"
    "shift_schedule (8 div 2) = Inr (mask 2, desc_shifts 2 (8 div 2))"
    "shift_schedule (8 div 4) = Inr (mask 4, desc_shifts 4 (8 div 4))"
    "shift_schedule (8 div 8) = Inr (mask 8, desc_shifts 8 (8 div 8))"
    by code_simp+
  with assms show ?thesis by auto
qed

lemma depth_facts:
  assumes "b \<in> {1, 2, 4, 8::nat}"
  shows "8 div b * b = 8" and "0 < 8 div b" and "(2::nat) ^ b \<le> 256"
  using assms by auto

lemma unpack_bytes_depth:
  assumes b: "b \<in> {1, 2, 4, 8}"
  shows "unpack_bytes S (8 div b)
       = Inr (concat (map (\<lambda>byte. map of_nat (unpack_nat b (8 div b) (unat byte))) S))"
proof -
  let ?ns = "concat (map (\<lambda>byte. unpack_nat b (8 div b) (unat byte)) S)"
  have "\<forall>n \<in> set ?ns. n < 256"
    using unpack_nat_less depth_facts(3)[OF b] by fastforce
  then have "bytearray ?ns = Inr (map of_nat ?ns)" by (rule bytearray_bytes)
  then show ?thesis
    by (simp add: unpack_bytes_def shift_schedule_depth[OF b] unpack_nat_def map_concat comp_def)
qed

lemma pack_bytes_depth:
  assumes b: "b \<in> {1, 2, 4, 8}" and cs: "\<forall>c \<in> set cs. length c = 8 div b"
  shows "pack_bytes (concat cs) (8 div b)
       = Inr (map (\<lambda>c. of_nat (pack_nat b (8 div b) (map unat c))) cs)"
proof -
  let ?k = "8 div b"
  let ?sh = "desc_shifts b ?k"
  let ?f = "\<lambda>(v, shift). push_bit shift (unat v AND mask b)"
  let ?ds = "map (\<lambda>c. map ?f (zip c ?sh)) cs"
  from depth_facts[OF b] have k: "0 < ?k" by simp
  from cs have len: "length (concat cs) = ?k * length cs"
    by (induction cs) simp_all
  from k len have pw: "length (concat cs) div ?k = length cs" by simp
  from cs have "zip (concat cs) (concat (replicate (length cs) ?sh))
      = concat (map (\<lambda>c. zip c ?sh) cs)"
    by (intro zip_concat_replicate) simp
  then have pre: "map ?f (zip (concat cs) (concat (replicate (length cs) ?sh))) = concat ?ds"
    by (simp add: map_concat comp_def del: push_bit_and)
  from cs have ds: "\<forall>d \<in> set ?ds. length d = ?k" by auto
  then have lds: "length (concat ?ds) = ?k * length cs"
    by (induction cs) (simp_all del: push_bit_and)
  from range_step_multiple[OF k, of "length cs"]
  have offs: "range_step (length (concat ?ds)) ?k = Inr (map (\<lambda>i. i * ?k) [0 ..< length ?ds])"
    by (simp add: lds del: push_bit_and)
  from chunks_of_concat[OF ds, of sum_list]
  have sums: "map (\<lambda>off. sum_list (take ?k (drop off (concat ?ds)))) (map (\<lambda>i. i * ?k) [0 ..< length ?ds])
      = map sum_list ?ds" .
  have val: "map sum_list ?ds = map (\<lambda>c. pack_nat b ?k (map unat c)) cs"
    by (simp add: pack_nat_def zip_map1 comp_def case_prod_unfold del: push_bit_and)
  have "\<forall>n \<in> set (map (\<lambda>c. pack_nat b ?k (map unat c)) cs). n < 256"
    using pack_nat_less[of b ?k] depth_facts(1)[OF b] by auto
  then have "bytearray (map (\<lambda>c. pack_nat b ?k (map unat c)) cs)
      = Inr (map of_nat (map (\<lambda>c. pack_nat b ?k (map unat c)) cs))"
    by (rule bytearray_bytes)
  note final = this
  let ?pre = "map ?f (zip (concat cs) (concat (replicate (length cs) ?sh)))"
  have "pack_bytes (concat cs) ?k
      = (case range_step (length ?pre) ?k of
           Inl e \<Rightarrow> Inl e
         | Inr offs \<Rightarrow> bytearray (map (\<lambda>off. sum_list (take ?k (drop off ?pre))) offs))"
    by (simp only: pack_bytes_def shift_schedule_depth[OF b] pw Let_def sum.case prod.case)
  also have "\<dots> = bytearray (map (\<lambda>off. sum_list (take ?k (drop off (concat ?ds))))
                            (map (\<lambda>i. i * ?k) [0 ..< length ?ds]))"
    by (simp only: pre offs sum.case)
  also have "\<dots> = bytearray (map (\<lambda>c. pack_nat b ?k (map unat c)) cs)"
    by (simp only: sums val)
  also note final
  finally show ?thesis by (simp only: map_map comp_def)
qed

lemma unat_of_nat_list:
  assumes "\<forall>n \<in> set ns. n < 256"
  shows "map unat (map of_nat ns :: byte list) = ns"
  using assms by (induction ns) (simp_all add: unat_of_nat_byte)

lemma length_concat_uniform:
  "\<forall>r \<in> set rs. length r = w \<Longrightarrow> length (concat rs) = w * length rs"
  by (induction rs) simp_all

lemma pack_unpack_byte:
  assumes b: "b \<in> {1, 2, 4, 8}"
  shows "of_nat (pack_nat b (8 div b) (map unat (map of_nat (unpack_nat b (8 div b) (unat byte)) :: byte list)))
       = (byte :: byte)"
proof -
  have "\<forall>n \<in> set (unpack_nat b (8 div b) (unat byte)). n < 256"
    using unpack_nat_less depth_facts(3)[OF b] by fastforce
  then have "map unat (map of_nat (unpack_nat b (8 div b) (unat byte)) :: byte list)
      = unpack_nat b (8 div b) (unat byte)"
    by (rule unat_of_nat_list)
  moreover have "take_bit 8 (unat byte) = unat byte"
    by (rule take_bit_nat_eq_self) (use unsigned_less[of byte] in simp)
  ultimately show ?thesis
    by (simp add: pack_unpack_nat depth_facts(1)[OF b])
qed

lemma unpack_pack_chunk:
  assumes b: "b \<in> {1, 2, 4, 8}" and len: "length c = 8 div b"
    and small: "\<forall>v \<in> set c. unat v < 2 ^ b"
  shows "map of_nat (unpack_nat b (8 div b)
            (unat (of_nat (pack_nat b (8 div b) (map unat c)) :: byte))) = (c :: byte list)"
proof -
  have "pack_nat b (8 div b) (map unat c) < 256"
    using pack_nat_less[of b "8 div b"] depth_facts(1)[OF b] by simp
  then have "unat (of_nat (pack_nat b (8 div b) (map unat c)) :: byte)
      = pack_nat b (8 div b) (map unat c)"
    by (rule unat_of_nat_byte)
  moreover from len small
  have "unpack_nat b (8 div b) (pack_nat b (8 div b) (map unat c)) = map unat c"
    by (intro unpack_pack_nat) simp_all
  ultimately show ?thesis by (simp add: comp_def)
qed

lemma frompacked_one_row:
  assumes b: "b \<in> {1, 2, 4, 8}" and S: "S \<noteq> []"
  shows "\<exists>u. unpack_bytes S (8 div b) = Inr u \<and> length u = 8 div b * length S
     \<and> frompacked S 1 (8 div b)
        = Inr \<lparr>bm_width = 8 div b * length S, bm_height = 1, bm_rows = Some [u]\<rparr>"
proof -
  let ?k = "8 div b"
  let ?u = "concat (map (\<lambda>byte. map of_nat (unpack_nat b ?k (unat byte))) S) :: byte list"
  have u: "unpack_bytes S ?k = Inr ?u" by (rule unpack_bytes_depth[OF b])
  have len: "length ?u = ?k * length S"
    by (induction S) (simp_all add: unpack_nat_def)
  from depth_facts(2)[OF b] S have w: "0 < ?k * length S" by simp
  from range_step_multiple[OF w, of 1]
  have offs: "range_step (?k * length S) (?k * length S) = Inr [0]" by simp
  have "frompacked S 1 ?k
      = Inr \<lparr>bm_width = ?k * length S, bm_height = 1, bm_rows = Some [?u]\<rparr>"
    by (simp add: frompacked_def u offs create_from_rows_def ByteMatrix_new_def len Let_def)
  with u len show ?thesis by blast
qed

lemma pack_frompacked:
  assumes b: "b \<in> {1, 2, 4, 8}" and S: "S \<noteq> []"
  shows "(case frompacked S 1 (8 div b) of Inl e \<Rightarrow> Inl e | Inr g \<Rightarrow> packed g (8 div b)) = Inr S"
proof -
  let ?k = "8 div b"
  define unpack1 where "unpack1 = (\<lambda>byte::byte. map of_nat (unpack_nat b ?k (unat byte)) :: byte list)"
  define pack1 where "pack1 = (\<lambda>c::byte list. of_nat (pack_nat b ?k (map unat c)) :: byte)"
  have f: "frompacked S 1 ?k
      = Inr \<lparr>bm_width = ?k * length S, bm_height = 1,
             bm_rows = Some [concat (map unpack1 S)]\<rparr>"
    using frompacked_one_row[OF b S] unpack_bytes_depth[OF b, of S] by (auto simp: unpack1_def)
  have "\<forall>c \<in> set (map unpack1 S). length c = ?k" by (auto simp: unpack_nat_def unpack1_def)
  from pack_bytes_depth[OF b this]
  have "pack_bytes (concat (map unpack1 S)) ?k = Inr (map pack1 (map unpack1 S))"
    by (simp only: pack1_def)
  moreover have "pack1 (unpack1 byte) = byte" for byte
    unfolding pack1_def unpack1_def by (rule pack_unpack_byte[OF b])
  then have "map pack1 (map unpack1 S) = S" by (simp add: comp_def)
  ultimately have "packed \<lparr>bm_width = ?k * length S, bm_height = 1,
      bm_rows = Some [concat (map unpack1 S)]\<rparr> ?k = Inr S"
    by (simp add: packed_def rows_attr_def)
  then show ?thesis unfolding f by simp
qed

lemma frompacked_packed:
  assumes b: "b \<in> {1, 2, 4, 8}" and wf: "wf_matrix g"
    and pos: "0 < bm_width g" "0 < bm_height g"
    and small: "\<forall>rs \<in> set_option (bm_rows g). \<forall>r \<in> set rs. \<forall>v \<in> set r. unat v < 2 ^ b"
    and mult: "8 div b dvd bm_width g * bm_height g"
  shows "(case packed g (8 div b) of Inl e \<Rightarrow> Inl e | Inr bs \<Rightarrow> frompacked bs (bm_height g) (8 div b))
       = Inr g"
proof -
  let ?k = "8 div b"
  let ?w = "bm_width g" and ?h = "bm_height g"
  from wf pos(1) obtain rs where rs: "bm_rows g = Some rs"
    by (cases "bm_rows g") (simp_all add: wf_matrix_def)
  from wf rs have rows: "length rs = ?h" "\<forall>r \<in> set rs. length r = ?w"
    by (simp_all add: wf_matrix_def list_all_iff)
  from rows(2) have "length (concat rs) = ?w * length rs"
    by (rule length_concat_uniform)
  with rows(1) have joined: "length (concat rs) = ?w * ?h" by simp
  from mult obtain n where n: "?w * ?h = n * ?k" by (auto simp: dvd_def mult.commute)
  from split_into_chunks[OF depth_facts(2)[OF b], of "concat rs" n] joined n
  obtain cs where cs: "concat cs = concat rs" "length cs = n"
    "\<forall>c \<in> set cs. length c = ?k" by auto
  from small rs have "\<forall>v \<in> set (concat rs). unat v < 2 ^ b" by auto
  with cs(1) have cs_small: "\<forall>c \<in> set cs. \<forall>v \<in> set c. unat v < 2 ^ b" by (metis set_concat UN_I)
  let ?bs = "map (\<lambda>c. of_nat (pack_nat b ?k (map unat c))) cs :: byte list"
  have p: "packed g ?k = Inr ?bs"
    using pack_bytes_depth[OF b cs(3)] by (simp add: packed_def rows_attr_def rs cs(1))
  have "concat (map (\<lambda>byte. map of_nat (unpack_nat b ?k (unat byte))) ?bs) = concat cs"
    using cs(3) cs_small by (simp add: comp_def unpack_pack_chunk[OF b] map_idI)
  with unpack_bytes_depth[OF b, of ?bs]
  have u: "unpack_bytes ?bs ?k = Inr (concat rs)" by (simp add: cs(1))
  from n cs(2) have "?k * length ?bs = ?w * ?h" by (simp add: mult.commute)
  then have "?k * length ?bs div ?h = ?w * ?h div ?h" by (rule arg_cong)
  also from pos(2) have "\<dots> = ?w" by simp
  finally have width: "?k * length ?bs div ?h = ?w" .
  from range_step_multiple[OF pos(1), of ?h] joined
  have offs: "range_step (length (concat rs)) ?w = Inr (map (\<lambda>i. i * ?w) [0 ..< ?h])"
    by simp
  from chunks_of_concat[OF rows(2), of "\<lambda>r. r"] rows(1)
  have cut: "map (\<lambda>off. take ?w (drop off (concat rs))) (map (\<lambda>i. i * ?w) [0 ..< ?h])
      = rs" by simp
  from pos(2) rows obtain r rs' where r: "rs = r # rs'" "length r = ?w"
    by (cases rs) auto
  with rows rs have "create_from_rows rs = Inr g"
    by (simp add: create_from_rows_def ByteMatrix_new_def list_all_iff)
  with p u width offs cut pos(2) show ?thesis
    by (simp add: frompacked_def)
qed

text \<open>
  Claim C1, as stated, fails: the empty byte sequence has a length that is a multiple of
  any \<open>8/b\<close>, but \<^verbatim>\<open>frompacked\<close> raises \<^verbatim>\<open>ValueError\<close> on it (the rows are cut
  with a step of 0), so there is no grid to pack.
\<close>

theorem frompacked_empty_counterexample:
  "length ([] :: byte list) mod (8 div 1) = 0 \<and> frompacked [] 1 (8 div 1) = Inl ValueError"
  by code_simp

text \<open>
  Claim C1, amended. For every bit depth \<open>b\<close> in 1, 2, 4, 8, with \<open>8/b\<close> items per
  byte: for every byte sequence \<open>S\<close> that is not empty, packing the grid that
  \<^verbatim>\<open>frompacked(S, 1, 8/b)\<close> returns gives exactly \<open>S\<close>; and for every grid of positive
  width and height whose cells are all below \<open>2^b\<close> and whose number of cells is a
  multiple of \<open>8/b\<close>, \<^verbatim>\<open>frompacked\<close> of its packed bytes, with its height, is the grid
  itself.
\<close>

theorem pack_unpack_inverse:
  "b \<in> {1, 2, 4, 8} \<Longrightarrow>
     (S \<noteq> [] \<longrightarrow>
        (case frompacked S 1 (8 div b) of Inl e \<Rightarrow> Inl e | Inr g' \<Rightarrow> packed g' (8 div b)) = Inr S)
   \<and> (wf_matrix g \<and> 0 < bm_width g \<and> 0 < bm_height g
        \<and> (\<forall>rs \<in> set_option (bm_rows g). \<forall>r \<in> set rs. \<forall>v \<in> set r. unat v < 2 ^ b)
        \<and> 8 div b dvd bm_width g * bm_height g \<longrightarrow>
        (case packed g (8 div b) of
           Inl e \<Rightarrow> Inl e
         | Inr bs \<Rightarrow> frompacked bs (bm_height g) (8 div b)) = Inr g)"
  using pack_frompacked[of b S] frompacked_packed[of b g] by blast

theorem pack_unpack_inverse_witness:
  "(case frompacked [0xA5, 0x3C] 1 (8 div 2) of
      Inl e \<Rightarrow> Inl e
    | Inr g' \<Rightarrow> packed g' (8 div 2)) = Inr [0xA5, 0x3C]
   \<and> (case packed \<lparr>bm_width = 4, bm_height = 2, bm_rows = Some [[2, 2, 1, 1], [0, 3, 3, 0]]\<rparr>
              (8 div 2) of
         Inl e \<Rightarrow> Inl e
       | Inr bs \<Rightarrow>
           frompacked bs
             (bm_height
                \<lparr>bm_width = 4, bm_height = 2, bm_rows = Some [[2, 2, 1, 1], [0, 3, 3, 0]]\<rparr>)
             (8 div 2))
      = Inr \<lparr>bm_width = 4, bm_height = 2, bm_rows = Some [[2, 2, 1, 1], [0, 3, 3, 0]]\<rparr>"
  using pack_unpack_inverse[of 2 "[0xA5, 0x3C]"
      "\<lparr>bm_width = 4, bm_height = 2, bm_rows = Some [[2, 2, 1, 1], [0, 3, 3, 0]]\<rparr>"]
  by (simp add: wf_matrix_def)

section \<open>Indexing and stacking\<close>

text \<open>
  The object \<^verbatim>\<open>ByteMatrix()\<close> has no rows to read: every operation on it raises
  \<^verbatim>\<open>AttributeError\<close>. No operation returns it, since \<^verbatim>\<open>_create_from_rows\<close> sets the
  rows of the object it returns.
\<close>

lemma ByteMatrix_new_no_rows:
  "getitem ByteMatrix_new x y = Inl AttributeError"
  "packed ByteMatrix_new n = Inl AttributeError"
  "render ByteMatrix_new back fore = Inl AttributeError"
  "hstack (ByteMatrix_new # ms) = Inl AttributeError"
  "vstack (ByteMatrix_new # ms) = Inl AttributeError"
  by (simp_all add: getitem_def packed_def render_def hstack_def vstack_def rows_attr_def
      ByteMatrix_new_def)

lemma create_from_rows_has_rows:
  "create_from_rows data = Inr g \<Longrightarrow> bm_rows g = Some data \<and> wf_matrix g"
  by (cases data)
    (auto simp: create_from_rows_def ByteMatrix_new_def wf_matrix_def split: if_splits)

text \<open>
  Claim C3 says that indexing with a range in either axis never raises, and that a range
  which selects nothing gives a grid with an empty dimension, in particular for a row range
  entirely outside the grid. The code does so for a column range and does not for a row
  range. On the 2 by 2 grid \<^verbatim>\<open>ByteMatrix(2, 2, [1, 2, 3, 4])\<close>, with rows 1 2 and 3 4:
  the columns \<^verbatim>\<open>0:2\<close> of the rows \<^verbatim>\<open>5:9\<close> raise \<^verbatim>\<open>IndexError\<close>, since no row is
  selected and \<^verbatim>\<open>_create_from_rows\<close> reads \<^verbatim>\<open>data[0]\<close>, and so does the column 1 of
  these rows; the columns \<^verbatim>\<open>5:9\<close> of the rows \<^verbatim>\<open>0:2\<close> are the grid of width 0 and
  height 2. Ranges that select something are clipped to the grid: the columns \<^verbatim>\<open>1:9\<close> of
  the rows \<^verbatim>\<open>-1:9\<close> are the grid with the one cell 4, the columns \<^verbatim>\<open>0:9\<close> of the row 1
  are the grid with the row 3 4, and the column 1 of the rows \<^verbatim>\<open>0:9\<close> is the grid with
  the rows 2 and 4.
\<close>

theorem getitem_row_range_outside:
  "getitem \<lparr>bm_width = 2, bm_height = 2, bm_rows = Some [[1, 2], [3, 4]]\<rparr>
      (Sl (Slice (Some 0) (Some 2))) (Sl (Slice (Some 5) (Some 9)))
     = Inl IndexError
   \<and> getitem \<lparr>bm_width = 2, bm_height = 2, bm_rows = Some [[1, 2], [3, 4]]\<rparr>
      (Idx 1) (Sl (Slice (Some 5) (Some 9)))
     = Inl IndexError
   \<and> getitem \<lparr>bm_width = 2, bm_height = 2, bm_rows = Some [[1, 2], [3, 4]]\<rparr>
      (Sl (Slice (Some 5) (Some 9))) (Sl (Slice (Some 0) (Some 2)))
     = Inr (Matrix \<lparr>bm_width = 0, bm_height = 2, bm_rows = Some [[], []]\<rparr>)
   \<and> getitem \<lparr>bm_width = 2, bm_height = 2, bm_rows = Some [[1, 2], [3, 4]]\<rparr>
      (Sl (Slice (Some 1) (Some 9))) (Sl (Slice (Some (- 1)) (Some 9)))
     = Inr (Matrix \<lparr>bm_width = 1, bm_height = 1, bm_rows = Some [[4]]\<rparr>)
   \<and> getitem \<lparr>bm_width = 2, bm_height = 2, bm_rows = Some [[1, 2], [3, 4]]\<rparr>
      (Sl (Slice (Some 0) (Some 9))) (Idx 1)
     = Inr (Matrix \<lparr>bm_width = 2, bm_height = 1, bm_rows = Some [[3, 4]]\<rparr>)
   \<and> getitem \<lparr>bm_width = 2, bm_height = 2, bm_rows = Some [[1, 2], [3, 4]]\<rparr>
      (Idx 1) (Sl (Slice (Some 0) (Some 9)))
     = Inr (Matrix \<lparr>bm_width = 1, bm_height = 2, bm_rows = Some [[2], [4]]\<rparr>)"
  by (simp add: getitem_def rows_attr_def create_from_rows_def ByteMatrix_new_def
      slice_bound_def getindex_def)

text \<open>
  Claim C4 says that \<^verbatim>\<open>hstack\<close> fails with a shape error whenever the heights differ, as
  \<^verbatim>\<open>vstack\<close> does whenever the widths differ. \<^verbatim>\<open>hstack\<close> zips the rows of the grids,
  which stops at the shortest grid, and nothing compares the heights: the grid
  \<^verbatim>\<open>ByteMatrix(1, 2, [[1], [2]])\<close> of height 2 and the grid \<^verbatim>\<open>ByteMatrix(1, 1, 3)\<close> of
  height 1 give the grid of height 1 with the row 1 3, and the row 2 is lost. \<^verbatim>\<open>vstack\<close>
  of the first grid and the grid \<^verbatim>\<open>ByteMatrix(2, 1, 3)\<close> of width 2 raises the assertion
  error of \<^verbatim>\<open>_create_from_rows\<close>. On matching shapes both do what the claim says:
  \<^verbatim>\<open>hstack\<close> of the first grid and a grid of height 2 with the rows 3 4 and 5 6 has the
  rows 1 3 4 and 2 5 6, and \<^verbatim>\<open>vstack\<close> of the two grids of width 1 has the rows 1, 2
  and 3.
\<close>

theorem hstack_drops_rows:
  "hstack [\<lparr>bm_width = 1, bm_height = 2, bm_rows = Some [[1], [2]]\<rparr>,
           \<lparr>bm_width = 1, bm_height = 1, bm_rows = Some [[3]]\<rparr>]
     = Inr \<lparr>bm_width = 2, bm_height = 1, bm_rows = Some [[1, 3]]\<rparr>
   \<and> vstack [\<lparr>bm_width = 1, bm_height = 2, bm_rows = Some [[1], [2]]\<rparr>,
             \<lparr>bm_width = 2, bm_height = 1, bm_rows = Some [[3, 3]]\<rparr>]
     = Inl AssertionError
   \<and> hstack [\<lparr>bm_width = 1, bm_height = 2, bm_rows = Some [[1], [2]]\<rparr>,
             \<lparr>bm_width = 2, bm_height = 2, bm_rows = Some [[3, 4], [5, 6]]\<rparr>]
     = Inr \<lparr>bm_width = 3, bm_height = 2, bm_rows = Some [[1, 3, 4], [2, 5, 6]]\<rparr>
   \<and> vstack [\<lparr>bm_width = 1, bm_height = 2, bm_rows = Some [[1], [2]]\<rparr>,
             \<lparr>bm_width = 1, bm_height = 1, bm_rows = Some [[3]]\<rparr>]
     = Inr \<lparr>bm_width = 1, bm_height = 3, bm_rows = Some [[1], [2], [3]]\<rparr>"
  by (simp add: hstack_def vstack_def rows_attr_def zip_star_def create_from_rows_def
      ByteMatrix_new_def upt_conv_Cons)

section \<open>Rendering a bitmap\<close>

text \<open>
  Claim C5 says that \<^verbatim>\<open>render\<close> turns every 0 cell into \<open>back\<close> and every 1 cell
  into \<open>fore\<close>. The two replacements run one after the other, on every row: with
  \<open>back = 1\<close> the cells that were 0 become 1 in the first and then \<open>fore\<close> in the
  second. Here a grid with the cells 0 and 1, \<open>back = 1\<close> and \<open>fore = 2\<close> gives the cells
  2 and 2, not 1 and 2.
\<close>

theorem render_back_one:
  "render \<lparr>bm_width = 2, bm_height = 1, bm_rows = Some [[0, 1]]\<rparr> 1 2
     = Inr \<lparr>bm_width = 2, bm_height = 1, bm_rows = Some [[2, 2]]\<rparr>"
  by (simp add: render_def rows_attr_def render_row_def chr_def replace_def
      create_from_rows_def ByteMatrix_new_def)

section \<open>The mode catalogue\<close>

lemma refs_alloc_None:
  "refs (alloc n kvs t) k = None \<longleftrightarrow> refs t k = None \<and> k \<notin> fst ` set kvs"
  by (induction n kvs t rule: alloc.induct) auto

lemma GRAPHICS_MODES_evaluated:
  "list_all (\<lambda>k. GRAPHICS_MODES_item k = final_entry k) graphics_names"
  by code_simp

lemma GRAPHICS_MODES_refs:
  assumes "GRAPHICS_MODES = Inr t" and "nm \<notin> set graphics_names"
  shows "refs t nm = None"
  using assms
  by (auto simp: GRAPHICS_MODES_def bind_alias_def set_max_pages_def table_of_def
      subscr_def refs_alloc_None graphics_names_def split: option.splits)

lemma final_entry_unknown:
  assumes "nm \<notin> set graphics_names"
  shows "final_entry nm = Inl KeyError"
proof -
  from assms have "base_name nm = nm" and "nm \<notin> fst ` set GRAPHICS_MODES_display"
    by (simp_all add: graphics_names_def base_name_def)
  then have "map_of GRAPHICS_MODES_display (base_name nm) = None"
    by (simp add: map_of_eq_None_iff)
  then show ?thesis by (simp add: final_entry_def)
qed

lemma GRAPHICS_MODES_ok: "\<exists>t. GRAPHICS_MODES = Inr t"
  by (simp add: GRAPHICS_MODES_def bind_alias_def set_max_pages_def table_of_def
      GRAPHICS_MODES_display_def subscr_def)

lemma GRAPHICS_MODES_item_final: "GRAPHICS_MODES_item nm = final_entry nm"
proof (cases "nm \<in> set graphics_names")
  case True
  with GRAPHICS_MODES_evaluated show ?thesis unfolding list_all_iff by blast
next
  case False
  from GRAPHICS_MODES_ok obtain t where t: "GRAPHICS_MODES = Inr t" ..
  from t False have "refs t nm = None" by (rule GRAPHICS_MODES_refs)
  then have "GRAPHICS_MODES_item nm = Inl KeyError"
    by (simp add: GRAPHICS_MODES_item_def t deref_def subscr_def)
  with False show ?thesis by (simp add: final_entry_unknown)
qed

lemma display_props:
  "list_all (\<lambda>d. g_rows d = 25 \<and> g_columns d \<noteq> 0 \<and> g_width d mod g_columns d = 0
      \<and> (g_layout d \<noteq> EGAMode \<longrightarrow> g_planes_used d = None)
      \<and> g_layout d \<in> {CGAMode, EGAMode, Tandy6Mode}) (map snd GRAPHICS_MODES_display)"
  by code_simp

lemma final_entry_props:
  assumes "final_entry nm = Inr d"
  shows "g_rows d = 25" "g_columns d \<noteq> 0" "g_width d mod g_columns d = 0"
    "g_layout d \<noteq> EGAMode \<longrightarrow> g_planes_used d = None"
    "base_name nm \<in> {''320x200x4'', ''640x200x2''} \<Longrightarrow> g_max_pages d = Some 8"
    "g_layout d \<in> {CGAMode, EGAMode, Tandy6Mode}"
proof -
  from assms obtain d0 where d0: "map_of GRAPHICS_MODES_display (base_name nm) = Some d0"
    and d: "d = (if base_name nm \<in> {''320x200x4'', ''640x200x2''}
                  then d0\<lparr>g_max_pages := Some 8\<rparr> else d0)"
    by (auto simp: final_entry_def split: option.splits)
  from d0 have "d0 \<in> set (map snd GRAPHICS_MODES_display)"
    by (force dest: map_of_SomeD)
  with display_props have "g_rows d0 = 25 \<and> g_columns d0 \<noteq> 0 \<and> g_width d0 mod g_columns d0 = 0
      \<and> (g_layout d0 \<noteq> EGAMode \<longrightarrow> g_planes_used d0 = None)
      \<and> g_layout d0 \<in> {CGAMode, EGAMode, Tandy6Mode}"
    unfolding list_all_iff by blast
  with d show "g_rows d = 25" "g_columns d \<noteq> 0" "g_width d mod g_columns d = 0"
    "g_layout d \<noteq> EGAMode \<longrightarrow> g_planes_used d = None"
    "g_layout d \<in> {CGAMode, EGAMode, Tandy6Mode}"
    by (simp_all split: if_splits)
  from d show "base_name nm \<in> {''320x200x4'', ''640x200x2''} \<Longrightarrow> g_max_pages d = Some 8"
    by simp
qed

lemma dict_SomeD: "dict kvs k = Some v \<Longrightarrow> (k, v) \<in> set kvs"
  by (auto simp: dict_def dest: map_of_SomeD)

lemma is_ok_iff: "is_ok r \<longleftrightarrow> (\<exists>v. r = Inr v)"
  by (cases r) (simp_all add: is_ok_def)

lemma MODES_SomeD:
  assumes "MODES a = Some modes" and "modes k = Some nm"
  shows "(\<exists>es. (a, es) \<in> set MODES_display \<and> (k, nm) \<in> set es)
     \<or> (a = ''olivetti'' \<and> olivetti_super k = Some nm)"
proof -
  from assms(1) obtain es where es: "dict MODES_display a = Some es"
    and modes: "modes = (if a = ''olivetti'' then dict es ++ olivetti_super else dict es)"
    by (auto simp: MODES_def)
  from es have "(a, es) \<in> set MODES_display" by (rule dict_SomeD)
  moreover from modes assms(2) have "dict es k = Some nm \<or> (a = ''olivetti'' \<and> olivetti_super k = Some nm)"
    by (auto simp: map_add_Some_iff split: if_splits)
  ultimately show ?thesis by (auto dest: dict_SomeD)
qed

lemma MODES_display_ok:
  "list_all (\<lambda>(a, es). list_all (\<lambda>(k, nm).
      case k of
        Number n \<Rightarrow> is_ok (final_entry nm)
      | Tuple x y \<Rightarrow> TEXT_MODES nm \<noteq> None) es) MODES_display"
  by code_simp

lemma olivetti_super_ok: "olivetti_super k = Some nm \<Longrightarrow> (\<exists>n. k = Number n) \<and> is_ok (final_entry nm)"
proof -
  have "is_ok (final_entry ''640x400x2'')" by code_simp
  then show "olivetti_super k = Some nm \<Longrightarrow> (\<exists>n. k = Number n) \<and> is_ok (final_entry nm)"
    by (auto simp: olivetti_super_def split: mode_key.splits if_splits)
qed

lemma MODES_graphics_name:
  assumes "MODES a = Some modes" and "modes (Number n) = Some nm"
  shows "\<exists>d. final_entry nm = Inr d"
proof -
  from MODES_SomeD[OF assms] show ?thesis
  proof
    assume "\<exists>es. (a, es) \<in> set MODES_display \<and> (Number n, nm) \<in> set es"
    then obtain es where "(a, es) \<in> set MODES_display" "(Number n, nm) \<in> set es" by blast
    with MODES_display_ok have "is_ok (final_entry nm)"
      unfolding list_all_iff by fastforce
    then show ?thesis by (simp add: is_ok_iff)
  next
    assume "a = ''olivetti'' \<and> olivetti_super (Number n) = Some nm"
    then show ?thesis using olivetti_super_ok is_ok_iff by blast
  qed
qed

lemma MODES_text_name:
  assumes "MODES a = Some modes" and "modes (Tuple x y) = Some nm"
  shows "\<exists>d. TEXT_MODES nm = Some d"
proof -
  from MODES_SomeD[OF assms] show ?thesis
  proof
    assume "\<exists>es. (a, es) \<in> set MODES_display \<and> (Tuple x y, nm) \<in> set es"
    then obtain es where "(a, es) \<in> set MODES_display" "(Tuple x y, nm) \<in> set es" by blast
    with MODES_display_ok have "TEXT_MODES nm \<noteq> None"
      unfolding list_all_iff by fastforce
    then show ?thesis by blast
  next
    assume "a = ''olivetti'' \<and> olivetti_super (Tuple x y) = Some nm"
    then show ?thesis by (simp add: olivetti_super_def)
  qed
qed

lemma GraphicsMode_init_ok:
  assumes "final_entry nm = Inr d"
  shows "\<exists>m. GraphicsMode_init (g_layout d) nm vms cm d = Inr m"
  using final_entry_props(1,2,4,6)[OF assms]
  by (auto simp: GraphicsMode_init_def floordiv_def Let_def)

lemma ceildiv_eq: "- (- h div r) = \<lceil>real_of_int h / real_of_int r\<rceil>"
proof -
  have "\<lfloor>real_of_int (- h) / real_of_int r\<rfloor> = - h div r"
    by (rule floor_divide_of_int_eq)
  then show ?thesis by (simp add: ceiling_def)
qed

lemma GraphicsMode_init_Inr:
  assumes "GraphicsMode_init cls nm vms cm d = Inr m"
  shows "font_height m = - (- g_height d div g_rows d)"
    and "font_width m = g_width d div g_columns d"
    and "pixel_height m = g_height d" and "pixel_width m = g_width d"
    and "height m = g_rows d" and "width m = g_columns d"
    and "g_rows d \<noteq> 0" and "g_columns d \<noteq> 0"
    and "is_text_mode m = Some False" and "name m = nm" and "colourmap m = cm"
    and "map_option mm_max_pages (memorymap m) = Some (g_max_pages d)"
  using assms
  by (auto simp: GraphicsMode_init_def floordiv_def VideoMode_init_def Let_def
      split: if_splits sum.splits)

lemma get_mode_unknown:
  assumes "requested_mode adapter number w = None"
  shows "get_mode number w adapter monitor vms = Inl IFC"
  using assms
  by (auto simp: requested_mode_def get_mode_def get_mode_body_def subscr_def
      split: option.splits if_splits)

lemma get_mode_graphics:
  assumes "number \<noteq> 0" and "requested_mode adapter number w = Some nm"
  shows "\<exists>d. final_entry nm = Inr d \<and>
     get_mode number w adapter monitor vms =
       GraphicsMode_init (g_layout d) nm vms
         \<lparr>cm_class = g_colourmap d, cm_adapter = adapter, cm_monitor = monitor\<rparr> d"
proof -
  from assms obtain modes where m: "MODES adapter = Some modes" "modes (Number number) = Some nm"
    by (auto simp: requested_mode_def split: option.splits)
  then obtain d where d: "final_entry nm = Inr d" using MODES_graphics_name by blast
  let ?cm = "\<lparr>cm_class = g_colourmap d, cm_adapter = adapter, cm_monitor = monitor\<rparr>"
  from GraphicsMode_init_ok[OF d] obtain md
    where md: "GraphicsMode_init (g_layout d) nm vms ?cm d = Inr md" by blast
  have "get_mode_body number w adapter monitor vms = Inr md"
    using assms(1) m d md
    by (simp add: get_mode_body_def subscr_def get_graphics_mode_def GRAPHICS_MODES_item_final)
  then have "get_mode number w adapter monitor vms = Inr md"
    by (simp add: get_mode_def)
  with d md show ?thesis by auto
qed

lemma get_mode_text:
  assumes "requested_mode adapter 0 w = Some nm"
  shows "\<exists>d. TEXT_MODES nm = Some d \<and>
     get_mode 0 w adapter monitor vms =
       Inr (TextMode_init nm (t_rows d) (t_columns d) (t_font_height d) (t_font_width d)
              (t_attr d) vms (Some (t_max_pages d)) (t_mono d)
              \<lparr>cm_class = t_colourmap d, cm_adapter = adapter, cm_monitor = monitor\<rparr>)"
proof -
  from assms obtain modes where m: "MODES adapter = Some modes" "modes (Tuple 0 w) = Some nm"
    by (auto simp: requested_mode_def split: option.splits)
  then obtain d where d: "TEXT_MODES nm = Some d" using MODES_text_name by blast
  with m show ?thesis
    by (simp add: get_mode_def get_mode_body_def subscr_def get_text_mode_def)
qed

lemma TextMode_init_simps:
  "name (TextMode_init nm r c fh fw a vms mp mn cm) = nm"
  "is_text_mode (TextMode_init nm r c fh fw a vms mp mn cm) = Some True"
  "memorymap (TextMode_init nm r c fh fw a vms mp mn cm) = Some (TextMemoryMap r c vms mp mn)"
  "colourmap (TextMode_init nm r c fh fw a vms mp mn cm) = cm"
  "width (TextMode_init nm r c fh fw a vms mp mn cm) = c"
  by (simp_all add: TextMode_init_def VideoMode_init_def)

lemma get_mode_Inr_cases:
  assumes "get_mode number w adapter monitor vms = Inr m"
  shows "(number = 0 \<and> (\<exists>nm d. requested_mode adapter 0 w = Some nm \<and> TEXT_MODES nm = Some d
             \<and> m = TextMode_init nm (t_rows d) (t_columns d) (t_font_height d)
                   (t_font_width d) (t_attr d) vms (Some (t_max_pages d)) (t_mono d)
                   \<lparr>cm_class = t_colourmap d, cm_adapter = adapter, cm_monitor = monitor\<rparr>))
     \<or> (number \<noteq> 0 \<and> (\<exists>nm d. requested_mode adapter number w = Some nm
             \<and> final_entry nm = Inr d
             \<and> GraphicsMode_init (g_layout d) nm vms
                  \<lparr>cm_class = g_colourmap d, cm_adapter = adapter, cm_monitor = monitor\<rparr> d
                = Inr m))"
proof (cases "requested_mode adapter number w")
  case None
  from get_mode_unknown[OF None, of monitor vms] assms show ?thesis by simp
next
  case (Some nm)
  show ?thesis
  proof (cases "number = 0")
    case True
    with Some get_mode_text[of adapter w nm monitor vms] assms show ?thesis by auto
  next
    case False
    with Some get_mode_graphics[OF False Some, of monitor vms] assms show ?thesis by auto
  qed
qed

lemma hercules_requested: "requested_mode ''hercules'' 3 w = Some ''720x348x2''"
  by (simp add: requested_mode_def MODES_def dict_def MODES_display_def)

lemma hercules_entry:
  "map_sum id (\<lambda>d. (g_width d, g_height d, g_rows d, g_columns d)) (final_entry ''720x348x2'')
     = Inr (720, 348, 25, 80)"
  by code_simp

lemma cga_requested:
  "requested_mode ''cga'' 1 w = Some ''320x200x4''"
  "requested_mode ''cga'' 2 w = Some ''640x200x2''"
  by (simp_all add: requested_mode_def MODES_def dict_def MODES_display_def)

lemma not_text_names: "TEXT_MODES ''320x200x4'' = None" "TEXT_MODES ''640x200x2'' = None"
  by code_simp+

lemma get_mode_max_pages:
  assumes g: "get_mode number w adapter monitor vms = Inr m"
    and n: "name m = ''320x200x4'' \<or> name m = ''640x200x2''"
  shows "map_option mm_max_pages (memorymap m) = Some (Some 8)"
proof -
  from get_mode_Inr_cases[OF g] show ?thesis
  proof (elim disjE conjE exE)
    fix nm d
    assume "TEXT_MODES nm = Some d"
      and "m = TextMode_init nm (t_rows d) (t_columns d) (t_font_height d)
                   (t_font_width d) (t_attr d) vms (Some (t_max_pages d)) (t_mono d)
                   \<lparr>cm_class = t_colourmap d, cm_adapter = adapter, cm_monitor = monitor\<rparr>"
    with n not_text_names show ?thesis by (auto simp: TextMode_init_simps)
  next
    fix nm d
    assume d: "final_entry nm = Inr d"
      and m: "GraphicsMode_init (g_layout d) nm vms
                  \<lparr>cm_class = g_colourmap d, cm_adapter = adapter, cm_monitor = monitor\<rparr> d
                = Inr m"
    from GraphicsMode_init_Inr(10)[OF m] n have "nm = ''320x200x4'' \<or> nm = ''640x200x2''" by simp
    then have "base_name nm \<in> {''320x200x4'', ''640x200x2''}"
      by (auto simp: base_name_def)
    from final_entry_props(5)[OF d this] GraphicsMode_init_Inr(12)[OF m] show ?thesis by simp
  qed
qed

lemma text_requested:
  "requested_mode ''cga'' 0 80 = Some ''cgatext80''"
  "requested_mode ''cga'' 0 40 = Some ''cgatext40''"
  by code_simp+

lemma cgatext_columns:
  "map_option t_columns (TEXT_MODES ''cgatext80'') = Some 80"
  "map_option t_columns (TEXT_MODES ''cgatext40'') = Some 40"
  by code_simp+

lemma hercules_number: "MODE_NUMBER ''720x348x2'' = None"
  by code_simp

lemma TO_WIDTH_ok: "is_ok TO_WIDTH"
  by code_simp

lemma MODES_display_switches:
  "case TO_WIDTH of
     Inl e \<Rightarrow> False
   | Inr d \<Rightarrow>
       list_all (\<lambda>(a, es). list_all (\<lambda>(k, nm).
         case k of
           Number n \<Rightarrow> n = 0 \<or>
             (case dict d a of
                None \<Rightarrow> False
              | Some t \<Rightarrow>
                  (case dict t (Nr n) of
                     None \<Rightarrow> False
                   | Some sw \<Rightarrow> dict t (Name nm) = Some sw))
         | Tuple x y \<Rightarrow> True) es) MODES_display"
  by code_simp

lemma olivetti_numbers:
  "case TO_WIDTH of
     Inl e \<Rightarrow> False
   | Inr d \<Rightarrow>
       (case dict d ''olivetti'' of
          None \<Rightarrow> False
        | Some t \<Rightarrow>
            list_all (\<lambda>(k, sw). case k of Nr n \<Rightarrow> n < 4 | Name nm \<Rightarrow> True) t
            \<and> dict t (Name ''640x400x2'') = Some [(40, 1), (80, 3)])"
  by code_simp

lemma TO_WIDTH_item_defined:
  assumes nr: "nr \<noteq> 0" and r: "requested_mode adapter nr c = Some nm"
    and o: "\<not> (adapter = ''olivetti'' \<and> 4 \<le> nr)"
  shows "\<exists>sw. TO_WIDTH_item adapter (Nr nr) = Inr sw \<and> TO_WIDTH_item adapter (Name nm) = Inr sw"
proof -
  from TO_WIDTH_ok obtain d where d: "TO_WIDTH = Inr d" by (auto simp: is_ok_iff)
  from nr r obtain modes where m: "MODES adapter = Some modes" "modes (Number nr) = Some nm"
    by (auto simp: requested_mode_def split: option.splits)
  from MODES_SomeD[OF m] o obtain es
    where es: "(adapter, es) \<in> set MODES_display" "(Number nr, nm) \<in> set es"
    by (auto simp: olivetti_super_def split: if_splits)
  from MODES_display_switches have "list_all (\<lambda>(a, es). list_all (\<lambda>(k, nm).
         case k of
           Number n \<Rightarrow> n = 0 \<or>
             (case dict d a of
                None \<Rightarrow> False
              | Some t \<Rightarrow>
                  (case dict t (Nr n) of
                     None \<Rightarrow> False
                   | Some sw \<Rightarrow> dict t (Name nm) = Some sw))
         | Tuple x y \<Rightarrow> True) es) MODES_display"
    by (simp add: d)
  with es have "nr = 0 \<or>
             (case dict d adapter of
                None \<Rightarrow> False
              | Some t \<Rightarrow>
                  (case dict t (Nr nr) of
                     None \<Rightarrow> False
                   | Some sw \<Rightarrow> dict t (Name nm) = Some sw))"
    unfolding list_all_iff by fastforce
  with nr show ?thesis
    by (auto simp: TO_WIDTH_item_def d subscr_def split: option.splits)
qed

lemma TO_WIDTH_item_olivetti:
  assumes "4 \<le> nr"
  shows "TO_WIDTH_item ''olivetti'' (Nr nr) = Inl KeyError"
    and "TO_WIDTH_item ''olivetti'' (Name ''640x400x2'') = Inr [(40, 1), (80, 3)]"
proof -
  from TO_WIDTH_ok obtain d where d: "TO_WIDTH = Inr d" by (auto simp: is_ok_iff)
  from olivetti_numbers obtain t where t: "dict d ''olivetti'' = Some t"
    and keys: "list_all (\<lambda>(k, sw). case k of Nr n \<Rightarrow> n < 4 | Name nm \<Rightarrow> True) t"
    and nm: "dict t (Name ''640x400x2'') = Some [(40, 1), (80, 3)]"
    by (auto simp: d split: option.splits)
  have "dict t (Nr nr) = None"
  proof (cases "dict t (Nr nr)")
    case (Some sw)
    then have "(Nr nr, sw) \<in> set t" by (rule dict_SomeD)
    with keys have "nr < 4" unfolding list_all_iff by fastforce
    with assms show ?thesis by simp
  qed simp
  with t show "TO_WIDTH_item ''olivetti'' (Nr nr) = Inl KeyError"
    by (simp add: TO_WIDTH_item_def d subscr_def)
  from t nm show "TO_WIDTH_item ''olivetti'' (Name ''640x400x2'') = Inr [(40, 1), (80, 3)]"
    by (simp add: TO_WIDTH_item_def d subscr_def)
qed

lemma olivetti_requested:
  assumes "4 \<le> nr" and "nr < 256"
  shows "requested_mode ''olivetti'' nr c = Some ''640x400x2''"
proof -
  have "dict MODES_display ''olivetti'' \<noteq> None" by code_simp
  then obtain es where es: "dict MODES_display ''olivetti'' = Some es" by blast
  from assms have "olivetti_super (Number nr) = Some ''640x400x2''"
    by (simp add: olivetti_super_def)
  with assms es show ?thesis
    by (simp add: requested_mode_def MODES_def map_add_def)
qed

lemma GraphicsMode_init_record:
  assumes "g_layout d \<in> {CGAMode, EGAMode, Tandy6Mode}"
    and "g_rows d \<noteq> 0" and "g_columns d \<noteq> 0"
    and "g_layout d \<noteq> EGAMode \<longrightarrow> g_planes_used d = None"
  shows "GraphicsMode_init (g_layout d) nm vms cm d =
     Inr \<lparr>name = nm, height = g_rows d, width = g_columns d,
          font_height = - (- g_height d div g_rows d),
          font_width = g_width d div g_columns d,
          pixel_height = g_height d, pixel_width = g_width d, attr = g_attr d,
          is_text_mode = Some False,
          memorymap = Some (GraphicsMemoryMap
            (if g_layout d = CGAMode then CGAMemoryMapper
             else if g_layout d = EGAMode then EGAMemoryMapper else Tandy6MemoryMapper)
            (g_height d) (g_width d) vms (g_max_pages d) (g_interleave_times d)
            (g_bank_size d) (g_bitsperpixel d)
            (if g_layout d = EGAMode
             then Some (case g_planes_used d of None \<Rightarrow> [0, 1, 2, 3] | Some ps \<Rightarrow> ps)
             else None)),
          colourmap = cm,
          bitsperpixel = Some (g_bitsperpixel d), cursor_index = g_cursor_index d,
          build_tile = Some (if g_layout d = EGAMode then PlanedTileBuilder (g_bitsperpixel d)
                             else PackedTileBuilder (g_bitsperpixel d)),
          sprite_builder = Some (if g_layout d = CGAMode
                                 then PackedSpriteBuilder (g_bitsperpixel d)
                                 else PlanedSpriteBuilder (g_bitsperpixel d))\<rparr>"
  using assms
  by (auto simp: GraphicsMode_init_def floordiv_def VideoMode_init_def Let_def)


section \<open>Resolving a mode\<close>

text \<open>
  Claim C2. \<^verbatim>\<open>get_mode\<close> raises the "illegal function call" error whenever the
  adapter's table does not define the requested mode number (when the number is not zero)
  or the pair of 0 and the requested column count (when it is zero), as for mode 99 on
  adapter \<^verbatim>\<open>mda\<close>. This is the only error, and no request is answered with another
  mode: whenever the table defines the request, \<^verbatim>\<open>get_mode\<close> returns the mode object
  of the name that the table gives, with every attribute set from the parameter bundle of
  that name. For a text mode these are the rows and columns, the font cell, the pixel
  dimensions as their products, the attribute, the text memory mapper on the rows,
  columns, memory size, page count and mono flag, and the colour mapper of the bundle on
  the adapter and monitor. For a graphics mode they are the rows and columns, the pixel
  dimensions, the font cell (the width divided by the columns, and the height divided by
  the rows and rounded up), the attribute, the bit depth, the cursor index, the memory
  mapper of the bundle's layout on the bundle's dimensions, memory size, page count,
  interleave, bank size and bit depth, with the planes set for an EGA layout, the colour
  mapper, and the tile and sprite builders of the layout on the bit depth.
\<close>

theorem get_mode_sole_error_path:
  "(requested_mode adapter number w = None \<longrightarrow>
      get_mode number w adapter monitor vms = Inl IFC)
   \<and> (\<forall>nm. number = 0 \<and> requested_mode adapter number w = Some nm \<longrightarrow>
        (\<exists>d. TEXT_MODES nm = Some d
           \<and> get_mode number w adapter monitor vms =
               Inr \<lparr>name = nm, height = t_rows d, width = t_columns d,
                    font_height = t_font_height d, font_width = t_font_width d,
                    pixel_height = t_rows d * t_font_height d,
                    pixel_width = t_columns d * t_font_width d, attr = t_attr d,
                    is_text_mode = Some True,
                    memorymap = Some (TextMemoryMap (t_rows d) (t_columns d) vms
                                        (Some (t_max_pages d)) (t_mono d)),
                    colourmap = \<lparr>cm_class = t_colourmap d, cm_adapter = adapter,
                                 cm_monitor = monitor\<rparr>,
                    bitsperpixel = None, cursor_index = None, build_tile = None,
                    sprite_builder = None\<rparr>))
   \<and> (\<forall>nm. number \<noteq> 0 \<and> requested_mode adapter number w = Some nm \<longrightarrow>
        (\<exists>d. GRAPHICS_MODES_item nm = Inr d
           \<and> g_layout d \<in> {CGAMode, EGAMode, Tandy6Mode}
           \<and> g_rows d \<noteq> 0 \<and> g_columns d \<noteq> 0
           \<and> get_mode number w adapter monitor vms =
               Inr \<lparr>name = nm, height = g_rows d, width = g_columns d,
                    font_height = - (- g_height d div g_rows d),
                    font_width = g_width d div g_columns d,
                    pixel_height = g_height d, pixel_width = g_width d, attr = g_attr d,
                    is_text_mode = Some False,
                    memorymap = Some (GraphicsMemoryMap
                      (if g_layout d = CGAMode then CGAMemoryMapper
                       else if g_layout d = EGAMode then EGAMemoryMapper
                       else Tandy6MemoryMapper)
                      (g_height d) (g_width d) vms (g_max_pages d) (g_interleave_times d)
                      (g_bank_size d) (g_bitsperpixel d)
                      (if g_layout d = EGAMode
                       then Some (case g_planes_used d of
                                    None \<Rightarrow> [0, 1, 2, 3]
                                  | Some ps \<Rightarrow> ps)
                       else None)),
                    colourmap = \<lparr>cm_class = g_colourmap d, cm_adapter = adapter,
                                 cm_monitor = monitor\<rparr>,
                    bitsperpixel = Some (g_bitsperpixel d),
                    cursor_index = g_cursor_index d,
                    build_tile = Some (if g_layout d = EGAMode
                                       then PlanedTileBuilder (g_bitsperpixel d)
                                       else PackedTileBuilder (g_bitsperpixel d)),
                    sprite_builder = Some (if g_layout d = CGAMode
                                           then PackedSpriteBuilder (g_bitsperpixel d)
                                           else PlanedSpriteBuilder (g_bitsperpixel d))\<rparr>))
   \<and> (\<forall>e. get_mode number w adapter monitor vms = Inl e \<longrightarrow>
        e = IFC \<and> requested_mode adapter number w = None)
   \<and> get_mode 99 80 ''mda'' monitor vms = Inl IFC"
proof -
  have none: "get_mode number w adapter monitor vms = Inl IFC"
    if "requested_mode adapter number w = None"
    using that by (rule get_mode_unknown)
  have tmode: "\<exists>d. TEXT_MODES nm = Some d
           \<and> get_mode number w adapter monitor vms =
               Inr \<lparr>name = nm, height = t_rows d, width = t_columns d,
                    font_height = t_font_height d, font_width = t_font_width d,
                    pixel_height = t_rows d * t_font_height d,
                    pixel_width = t_columns d * t_font_width d, attr = t_attr d,
                    is_text_mode = Some True,
                    memorymap = Some (TextMemoryMap (t_rows d) (t_columns d) vms
                                        (Some (t_max_pages d)) (t_mono d)),
                    colourmap = \<lparr>cm_class = t_colourmap d, cm_adapter = adapter,
                                 cm_monitor = monitor\<rparr>,
                    bitsperpixel = None, cursor_index = None, build_tile = None,
                    sprite_builder = None\<rparr>"
    if "number = 0 \<and> requested_mode adapter number w = Some nm" for nm
    using that get_mode_text[of adapter w nm monitor vms]
    by (auto simp: TextMode_init_def VideoMode_init_def)
  have gfx: "\<exists>d. GRAPHICS_MODES_item nm = Inr d
           \<and> g_layout d \<in> {CGAMode, EGAMode, Tandy6Mode}
           \<and> g_rows d \<noteq> 0 \<and> g_columns d \<noteq> 0
           \<and> get_mode number w adapter monitor vms =
               Inr \<lparr>name = nm, height = g_rows d, width = g_columns d,
                    font_height = - (- g_height d div g_rows d),
                    font_width = g_width d div g_columns d,
                    pixel_height = g_height d, pixel_width = g_width d, attr = g_attr d,
                    is_text_mode = Some False,
                    memorymap = Some (GraphicsMemoryMap
                      (if g_layout d = CGAMode then CGAMemoryMapper
                       else if g_layout d = EGAMode then EGAMemoryMapper
                       else Tandy6MemoryMapper)
                      (g_height d) (g_width d) vms (g_max_pages d) (g_interleave_times d)
                      (g_bank_size d) (g_bitsperpixel d)
                      (if g_layout d = EGAMode
                       then Some (case g_planes_used d of
                                    None \<Rightarrow> [0, 1, 2, 3]
                                  | Some ps \<Rightarrow> ps)
                       else None)),
                    colourmap = \<lparr>cm_class = g_colourmap d, cm_adapter = adapter,
                                 cm_monitor = monitor\<rparr>,
                    bitsperpixel = Some (g_bitsperpixel d),
                    cursor_index = g_cursor_index d,
                    build_tile = Some (if g_layout d = EGAMode
                                       then PlanedTileBuilder (g_bitsperpixel d)
                                       else PackedTileBuilder (g_bitsperpixel d)),
                    sprite_builder = Some (if g_layout d = CGAMode
                                           then PackedSpriteBuilder (g_bitsperpixel d)
                                           else PlanedSpriteBuilder (g_bitsperpixel d))\<rparr>"
    if a: "number \<noteq> 0 \<and> requested_mode adapter number w = Some nm" for nm
  proof -
    from a have n: "number \<noteq> 0" and r: "requested_mode adapter number w = Some nm"
      by simp_all
    from get_mode_graphics[OF n r, of monitor vms] obtain d
      where d: "final_entry nm = Inr d"
        and g: "get_mode number w adapter monitor vms =
          GraphicsMode_init (g_layout d) nm vms
            \<lparr>cm_class = g_colourmap d, cm_adapter = adapter, cm_monitor = monitor\<rparr> d"
      by blast
    note p = final_entry_props[OF d]
    from p(1) have rows: "g_rows d \<noteq> 0" by simp
    from d have item: "GRAPHICS_MODES_item nm = Inr d"
      by (simp add: GRAPHICS_MODES_item_final)
    from item p(6) rows p(2) show ?thesis
      unfolding g GraphicsMode_init_record[OF p(6) rows p(2) p(4)] by blast
  qed
  have "requested_mode ''mda'' 99 80 = None" by code_simp
  then have mda: "get_mode 99 80 ''mda'' monitor vms = Inl IFC" by (rule get_mode_unknown)
  have err: "e = IFC \<and> requested_mode adapter number w = None"
    if e: "get_mode number w adapter monitor vms = Inl e" for e
  proof (cases "requested_mode adapter number w")
    case None
    with e get_mode_unknown[OF None, of monitor vms] show ?thesis by simp
  next
    case (Some nm)
    show ?thesis
    proof (cases "number = 0")
      case True
      with Some tmode[of nm] e show ?thesis by auto
    next
      case False
      with Some gfx[of nm] e show ?thesis by auto
    qed
  qed
  from none tmode gfx err mda show ?thesis by blast
qed


theorem get_mode_sole_error_path_witness:
  "get_mode 99 80 ''mda'' ''mono'' 16384 = Inl IFC
   \<and> get_mode 1 80 ''cga'' ''rgb'' 16384 =
       Inr \<lparr>name = ''320x200x4'', height = 25, width = 40, font_height = 8, font_width = 8,
            pixel_height = 200, pixel_width = 320, attr = 3, is_text_mode = Some False,
            memorymap = Some (GraphicsMemoryMap CGAMemoryMapper 200 320 16384 (Some 8) 2
                                0x2000 2 None),
            colourmap = \<lparr>cm_class = CGA4ColourMapper, cm_adapter = ''cga'',
                         cm_monitor = ''rgb''\<rparr>,
            bitsperpixel = Some 2, cursor_index = None,
            build_tile = Some (PackedTileBuilder 2),
            sprite_builder = Some (PackedSpriteBuilder 2)\<rparr>
   \<and> get_mode 10 80 ''ega_mono'' ''mono'' 262144 =
       Inr \<lparr>name = ''640x350x4'', height = 25, width = 80, font_height = 14, font_width = 8,
            pixel_height = 350, pixel_width = 640, attr = 1, is_text_mode = Some False,
            memorymap = Some (GraphicsMemoryMap EGAMemoryMapper 350 640 262144 None 1
                                0x8000 2 (Some [1, 3])),
            colourmap = \<lparr>cm_class = EGAMonoColourMapper, cm_adapter = ''ega_mono'',
                         cm_monitor = ''mono''\<rparr>,
            bitsperpixel = Some 2, cursor_index = None,
            build_tile = Some (PlanedTileBuilder 2),
            sprite_builder = Some (PlanedSpriteBuilder 2)\<rparr>
   \<and> get_mode 0 80 ''cga'' ''rgb'' 16384 =
       Inr \<lparr>name = ''cgatext80'', height = 25, width = 80, font_height = 8, font_width = 8,
            pixel_height = 200, pixel_width = 640, attr = 7, is_text_mode = Some True,
            memorymap = Some (TextMemoryMap 25 80 16384 (Some 4) False),
            colourmap = \<lparr>cm_class = EGA16TextColourMapper, cm_adapter = ''cga'',
                         cm_monitor = ''rgb''\<rparr>,
            bitsperpixel = None, cursor_index = None, build_tile = None,
            sprite_builder = None\<rparr>"
proof -
  have r: "requested_mode ''mda'' 99 80 = None"
    "requested_mode ''cga'' 1 80 = Some ''320x200x4''"
    "requested_mode ''ega_mono'' 10 80 = Some ''640x350x4''"
    "requested_mode ''cga'' 0 80 = Some ''cgatext80''"
    by code_simp+
  have cga: "GRAPHICS_MODES_item ''320x200x4'' = Inr \<lparr>
        g_width = 320, g_height = 200, g_rows = 25, g_columns = 40, g_attr = 3,
        g_bitsperpixel = 2, g_interleave_times = 2, g_bank_size = 0x2000,
        g_max_pages = Some 8, g_cursor_index = None, g_planes_used = None,
        g_layout = CGAMode, g_colourmap = CGA4ColourMapper\<rparr>"
    by code_simp
  have ega: "GRAPHICS_MODES_item ''640x350x4'' = Inr \<lparr>
        g_width = 640, g_height = 350, g_rows = 25, g_columns = 80, g_attr = 1,
        g_bitsperpixel = 2, g_interleave_times = 1, g_bank_size = 0x8000,
        g_max_pages = None, g_cursor_index = None, g_planes_used = Some [1, 3],
        g_layout = EGAMode, g_colourmap = EGAMonoColourMapper\<rparr>"
    by code_simp
  have cgatext: "TEXT_MODES ''cgatext80'' = Some \<lparr>
        t_rows = 25, t_columns = 80, t_font_height = 8, t_font_width = 8, t_attr = 7,
        t_max_pages = 4, t_mono = False, t_layout = TextMode,
        t_colourmap = EGA16TextColourMapper\<rparr>"
    by code_simp
  from get_mode_sole_error_path[of "''mda''" 99 80 "''mono''" 16384] r(1)
  have 1: "get_mode 99 80 ''mda'' ''mono'' 16384 = Inl IFC" by simp
  from get_mode_sole_error_path[of "''cga''" 1 80 "''rgb''" 16384] r(2)
  have 2: "get_mode 1 80 ''cga'' ''rgb'' 16384 =
       Inr \<lparr>name = ''320x200x4'', height = 25, width = 40, font_height = 8, font_width = 8,
            pixel_height = 200, pixel_width = 320, attr = 3, is_text_mode = Some False,
            memorymap = Some (GraphicsMemoryMap CGAMemoryMapper 200 320 16384 (Some 8) 2
                                0x2000 2 None),
            colourmap = \<lparr>cm_class = CGA4ColourMapper, cm_adapter = ''cga'',
                         cm_monitor = ''rgb''\<rparr>,
            bitsperpixel = Some 2, cursor_index = None,
            build_tile = Some (PackedTileBuilder 2),
            sprite_builder = Some (PackedSpriteBuilder 2)\<rparr>"
    by (simp add: cga)
  from get_mode_sole_error_path[of "''ega_mono''" 10 80 "''mono''" 262144] r(3)
  have 3: "get_mode 10 80 ''ega_mono'' ''mono'' 262144 =
       Inr \<lparr>name = ''640x350x4'', height = 25, width = 80, font_height = 14, font_width = 8,
            pixel_height = 350, pixel_width = 640, attr = 1, is_text_mode = Some False,
            memorymap = Some (GraphicsMemoryMap EGAMemoryMapper 350 640 262144 None 1
                                0x8000 2 (Some [1, 3])),
            colourmap = \<lparr>cm_class = EGAMonoColourMapper, cm_adapter = ''ega_mono'',
                         cm_monitor = ''mono''\<rparr>,
            bitsperpixel = Some 2, cursor_index = None,
            build_tile = Some (PlanedTileBuilder 2),
            sprite_builder = Some (PlanedSpriteBuilder 2)\<rparr>"
    by (simp add: ega)
  from get_mode_sole_error_path[of "''cga''" 0 80 "''rgb''" 16384] r(4)
  have 4: "get_mode 0 80 ''cga'' ''rgb'' 16384 =
       Inr \<lparr>name = ''cgatext80'', height = 25, width = 80, font_height = 8, font_width = 8,
            pixel_height = 200, pixel_width = 640, attr = 7, is_text_mode = Some True,
            memorymap = Some (TextMemoryMap 25 80 16384 (Some 4) False),
            colourmap = \<lparr>cm_class = EGA16TextColourMapper, cm_adapter = ''cga'',
                         cm_monitor = ''rgb''\<rparr>,
            bitsperpixel = None, cursor_index = None, build_tile = None,
            sprite_builder = None\<rparr>"
    by (simp add: cgatext)
  from 1 2 3 4 show ?thesis by (simp only: simp_thms)
qed

section \<open>Text and pixel coordinates\<close>

text \<open>
  Claim C8. For every mode object whose font cell has positive width and height and every
  text position \<open>(row, col)\<close>, in particular every valid 1-based one,
  \<^verbatim>\<open>pixel_to_text_pos\<close> applied to the pixel coordinates that
  \<^verbatim>\<open>text_to_pixel_pos(row, col)\<close> returns yields \<open>(row, col)\<close> again.
\<close>

theorem text_pixel_round_trip:
  "0 < font_width m \<Longrightarrow> 0 < font_height m \<Longrightarrow>
   (case text_to_pixel_pos m row col of (x, y) \<Rightarrow> pixel_to_text_pos m x y) = Inr (row, col)"
  by (simp add: text_to_pixel_pos_def pixel_to_text_pos_def floordiv_def)

theorem text_pixel_round_trip_witness:
  "get_mode 0 80 ''cga'' ''rgb'' 16384 =
     Inr (TextMode_init ''cgatext80'' 25 80 8 8 7 16384 (Some 4) False
           \<lparr>cm_class = EGA16TextColourMapper, cm_adapter = ''cga'', cm_monitor = ''rgb''\<rparr>)
   \<and> (case text_to_pixel_pos
             (TextMode_init ''cgatext80'' 25 80 8 8 7 16384 (Some 4) False
               \<lparr>cm_class = EGA16TextColourMapper, cm_adapter = ''cga'', cm_monitor = ''rgb''\<rparr>)
             25 80
       of (x, y) \<Rightarrow>
         pixel_to_text_pos
           (TextMode_init ''cgatext80'' 25 80 8 8 7 16384 (Some 4) False
             \<lparr>cm_class = EGA16TextColourMapper, cm_adapter = ''cga'', cm_monitor = ''rgb''\<rparr>)
           x y) = Inr (25, 80)"
proof -
  let ?m = "TextMode_init ''cgatext80'' 25 80 8 8 7 16384 (Some 4) False
           \<lparr>cm_class = EGA16TextColourMapper, cm_adapter = ''cga'', cm_monitor = ''rgb''\<rparr>"
  have m: "get_mode 0 80 ''cga'' ''rgb'' 16384 = Inr ?m" by code_simp
  have "0 < font_width ?m" "0 < font_height ?m"
    by (simp_all add: TextMode_init_def VideoMode_init_def)
  from text_pixel_round_trip[OF this, of 25 80] m show ?thesis by simp
qed

section \<open>The legacy mode number\<close>

text \<open>
  Claim C6. For every mode object that \<^verbatim>\<open>get_mode\<close> returns and every colour switch,
  \<^verbatim>\<open>get_mode_number\<close> is: 7 for the text modes named \<^verbatim>\<open>mdatext80\<close> and
  \<^verbatim>\<open>ega_monotext80\<close>; twice the truth value of "40 columns" plus the colour switch modulo
  2 for every other text mode, which is 0 for the 80-column CGA text mode with switch 0 and 3
  for the 40-column one with switch 1; 4 plus the colour mapper's \<^verbatim>\<open>mode_5\<close> bit for the
  graphics mode named \<^verbatim>\<open>320x200x4\<close>; the entry of \<^verbatim>\<open>_MODE_NUMBER\<close> for any other
  graphics mode whose name the table has; and 255, without an error, when it has not, as
  for the Hercules mode \<^verbatim>\<open>720x348x2\<close>.
\<close>

theorem get_mode_number_cases:
  "(get_mode number w adapter monitor vms = Inr m \<longrightarrow>
      (is_text_mode m = Some True \<or> is_text_mode m = Some False)
      \<and> get_mode_number flag m colorswitch =
        (if is_text_mode m = Some True then
           (if name m = ''mdatext80'' \<or> name m = ''ega_monotext80'' then 7
            else 2 * (if width m = 40 then 1 else 0) + colorswitch mod 2)
         else if name m = ''320x200x4'' then 4 + (if flag (colourmap m) then 1 else 0)
         else (case MODE_NUMBER (name m) of Some n \<Rightarrow> n | None \<Rightarrow> 0xFF)))
   \<and> (\<exists>m80. get_mode 0 80 ''cga'' monitor vms = Inr m80 \<and> width m80 = 80
          \<and> get_mode_number flag m80 0 = 0)
   \<and> (\<exists>m40. get_mode 0 40 ''cga'' monitor vms = Inr m40 \<and> width m40 = 40
          \<and> get_mode_number flag m40 1 = 3)
   \<and> (\<exists>h. get_mode 3 w ''hercules'' monitor vms = Inr h \<and> name h = ''720x348x2''
          \<and> get_mode_number flag h colorswitch = 0xFF)"
proof -
  have general: "(is_text_mode m = Some True \<or> is_text_mode m = Some False)
      \<and> get_mode_number flag m colorswitch =
        (if is_text_mode m = Some True then
           (if name m = ''mdatext80'' \<or> name m = ''ega_monotext80'' then 7
            else 2 * (if width m = 40 then 1 else 0) + colorswitch mod 2)
         else if name m = ''320x200x4'' then 4 + (if flag (colourmap m) then 1 else 0)
         else (case MODE_NUMBER (name m) of Some n \<Rightarrow> n | None \<Rightarrow> 0xFF))"
    if g: "get_mode number w adapter monitor vms = Inr m"
  proof -
    from get_mode_Inr_cases[OF g] have "is_text_mode m = Some True \<or> is_text_mode m = Some False"
      by (auto simp: TextMode_init_simps dest: GraphicsMode_init_Inr(9))
    then show ?thesis
      by (auto simp: get_mode_number_def subscr_def split: option.splits)
  qed
  have cgatext: "\<exists>m'. get_mode 0 c ''cga'' monitor vms = Inr m' \<and> width m' = c
       \<and> get_mode_number flag m' cs = 2 * (if c = 40 then 1 else 0) + cs mod 2"
    if r: "requested_mode ''cga'' 0 c = Some nm" and c: "map_option t_columns (TEXT_MODES nm) = Some c"
      and nm: "nm = ''cgatext80'' \<or> nm = ''cgatext40''" for c nm cs
  proof -
    from get_mode_text[OF r, of monitor vms] obtain d where d: "TEXT_MODES nm = Some d"
      and g: "get_mode 0 c ''cga'' monitor vms =
       Inr (TextMode_init nm (t_rows d) (t_columns d) (t_font_height d) (t_font_width d)
              (t_attr d) vms (Some (t_max_pages d)) (t_mono d)
              \<lparr>cm_class = t_colourmap d, cm_adapter = ''cga'', cm_monitor = monitor\<rparr>)"
      by blast
    from c d have "t_columns d = c" by simp
    with g nm show ?thesis
      by (auto simp: get_mode_number_def TextMode_init_simps)
  qed
  from cgatext[OF text_requested(1) cgatext_columns(1), of 0]
  have m80: "\<exists>m80. get_mode 0 80 ''cga'' monitor vms = Inr m80 \<and> width m80 = 80
          \<and> get_mode_number flag m80 0 = 0" by simp
  from cgatext[OF text_requested(2) cgatext_columns(2), of 1]
  have m40: "\<exists>m40. get_mode 0 40 ''cga'' monitor vms = Inr m40 \<and> width m40 = 40
          \<and> get_mode_number flag m40 1 = 3" by simp
  have herc: "\<exists>h. get_mode 3 w ''hercules'' monitor vms = Inr h \<and> name h = ''720x348x2''
          \<and> get_mode_number flag h colorswitch = 0xFF"
  proof -
    have "(3::int) \<noteq> 0" by simp
    from get_mode_graphics[OF this hercules_requested, of w monitor vms] obtain d
      where d: "final_entry ''720x348x2'' = Inr d"
        and g: "get_mode 3 w ''hercules'' monitor vms =
          GraphicsMode_init (g_layout d) ''720x348x2'' vms
            \<lparr>cm_class = g_colourmap d, cm_adapter = ''hercules'', cm_monitor = monitor\<rparr> d"
      by blast
    from GraphicsMode_init_ok[OF d] obtain h
      where h: "GraphicsMode_init (g_layout d) ''720x348x2'' vms
            \<lparr>cm_class = g_colourmap d, cm_adapter = ''hercules'', cm_monitor = monitor\<rparr> d = Inr h"
      by blast
    from GraphicsMode_init_Inr(9,10)[OF h] hercules_number
    have "get_mode_number flag h colorswitch = 0xFF"
      by (simp add: get_mode_number_def subscr_def)
    with g h GraphicsMode_init_Inr(10)[OF h] show ?thesis by simp
  qed
  from general m80 m40 herc show ?thesis by blast
qed

theorem get_mode_number_cases_witness:
  "\<exists>m. get_mode 0 40 ''cga'' ''rgb'' 16384 = Inr m \<and> is_text_mode m = Some True
     \<and> name m = ''cgatext40'' \<and> width m = 40 \<and> get_mode_number (\<lambda>c. False) m 1 = 3"
proof -
  from get_mode_text[OF text_requested(2), of "''rgb''" 16384] obtain m
    where m: "get_mode 0 40 ''cga'' ''rgb'' 16384 = Inr m" and n: "name m = ''cgatext40''"
      and t: "is_text_mode m = Some True"
    by (auto simp: TextMode_init_simps)
  from get_mode_number_cases[where monitor = "''rgb''" and vms = 16384 and flag = "\<lambda>c. False"]
  obtain m40 where m40: "get_mode 0 40 ''cga'' ''rgb'' 16384 = Inr m40" "width m40 = 40"
    by blast
  with m have w: "width m = 40" by simp
  from get_mode_number_cases[where number = 0 and w = 40 and adapter = "''cga''"
      and monitor = "''rgb''" and vms = 16384 and m = m and flag = "\<lambda>c. False"
      and colorswitch = 1] m t n w
  have "get_mode_number (\<lambda>c. False) m 1 = 3" by simp
  with m t n w show ?thesis by blast
qed

section \<open>The font cell of a graphics mode\<close>

text \<open>
  Claim C9. For every graphics mode object, as its constructor builds it and as
  \<^verbatim>\<open>get_mode\<close> returns it, the font height is the ceiling of the pixel height divided by
  the number of text rows, and the font width is the pixel width divided by the number of
  columns; for the modes of the catalogue this division is exact. The Hercules mode has
  348 lines and 25 rows, hence font height 14, although 14 times 25 is not 348.
\<close>

theorem graphics_font_cell:
  "(GraphicsMode_init cls nm vms cm d = Inr m \<longrightarrow>
      font_height m = \<lceil>real_of_int (pixel_height m) / real_of_int (height m)\<rceil>
      \<and> font_width m = pixel_width m div width m)
   \<and> (get_mode number w adapter monitor vms = Inr m' \<and> is_text_mode m' = Some False \<longrightarrow>
      font_height m' = \<lceil>real_of_int (pixel_height m') / real_of_int (height m')\<rceil>
      \<and> font_width m' = pixel_width m' div width m' \<and> width m' dvd pixel_width m')
   \<and> (\<exists>h. get_mode 3 w ''hercules'' monitor vms = Inr h \<and> is_text_mode h = Some False
          \<and> pixel_height h = 348 \<and> height h = 25 \<and> font_height h = 14 \<and> font_height h * height h \<noteq> pixel_height h
          \<and> pixel_width h = 720 \<and> width h = 80 \<and> font_width h = 9)"
proof -
  have init: "font_height m = \<lceil>real_of_int (pixel_height m) / real_of_int (height m)\<rceil>
      \<and> font_width m = pixel_width m div width m"
    if "GraphicsMode_init cls nm vms cm d = Inr m" for cls nm cm d m
    using GraphicsMode_init_Inr[OF that] by (simp add: ceildiv_eq)
  have resolved: "font_height m' = \<lceil>real_of_int (pixel_height m') / real_of_int (height m')\<rceil>
      \<and> font_width m' = pixel_width m' div width m' \<and> width m' dvd pixel_width m'"
    if g: "get_mode number w adapter monitor vms = Inr m'" and t: "is_text_mode m' = Some False"
  proof -
    from get_mode_Inr_cases[OF g] t obtain nm d where d: "final_entry nm = Inr d"
      and m: "GraphicsMode_init (g_layout d) nm vms
                  \<lparr>cm_class = g_colourmap d, cm_adapter = adapter, cm_monitor = monitor\<rparr> d
                = Inr m'"
      by (auto simp: TextMode_init_simps)
    from final_entry_props(3)[OF d] have "g_columns d dvd g_width d"
      by (simp add: dvd_eq_mod_eq_0)
    with init[OF m] GraphicsMode_init_Inr[OF m] show ?thesis by simp
  qed
  have herc: "\<exists>h. get_mode 3 w ''hercules'' monitor vms = Inr h \<and> is_text_mode h = Some False
          \<and> pixel_height h = 348 \<and> height h = 25 \<and> font_height h = 14 \<and> font_height h * height h \<noteq> pixel_height h
          \<and> pixel_width h = 720 \<and> width h = 80 \<and> font_width h = 9"
  proof -
    have "(3::int) \<noteq> 0" by simp
    from get_mode_graphics[OF this hercules_requested, of w monitor vms] obtain d
      where d: "final_entry ''720x348x2'' = Inr d"
        and g: "get_mode 3 w ''hercules'' monitor vms =
          GraphicsMode_init (g_layout d) ''720x348x2'' vms
            \<lparr>cm_class = g_colourmap d, cm_adapter = ''hercules'', cm_monitor = monitor\<rparr> d"
      by blast
    from GraphicsMode_init_ok[OF d] obtain h
      where h: "GraphicsMode_init (g_layout d) ''720x348x2'' vms
            \<lparr>cm_class = g_colourmap d, cm_adapter = ''hercules'', cm_monitor = monitor\<rparr> d = Inr h"
      by blast
    from hercules_entry d have "g_width d = 720" "g_height d = 348" "g_rows d = 25" "g_columns d = 80"
      by simp_all
    with GraphicsMode_init_Inr[OF h] g h show ?thesis by simp
  qed
  from init resolved herc show ?thesis by blast
qed

theorem graphics_font_cell_witness:
  "\<exists>d h. final_entry ''720x348x2'' = Inr d
     \<and> GraphicsMode_init (g_layout d) ''720x348x2'' 65536
          \<lparr>cm_class = g_colourmap d, cm_adapter = ''hercules'', cm_monitor = ''mono''\<rparr> d = Inr h
     \<and> get_mode 3 80 ''hercules'' ''mono'' 65536 = Inr h \<and> is_text_mode h = Some False
     \<and> font_height h = \<lceil>real_of_int (pixel_height h) / real_of_int (height h)\<rceil>
     \<and> font_height h = 14 \<and> pixel_height h = 348 \<and> height h = 25
     \<and> font_width h = pixel_width h div width h \<and> width h dvd pixel_width h"
proof -
  have "(3::int) \<noteq> 0" by simp
  from get_mode_graphics[OF this hercules_requested, of 80 "''mono''" 65536] obtain d
    where d: "final_entry ''720x348x2'' = Inr d"
      and g: "get_mode 3 80 ''hercules'' ''mono'' 65536 =
        GraphicsMode_init (g_layout d) ''720x348x2'' 65536
          \<lparr>cm_class = g_colourmap d, cm_adapter = ''hercules'', cm_monitor = ''mono''\<rparr> d"
    by blast
  from GraphicsMode_init_ok[OF d] obtain h
    where h: "GraphicsMode_init (g_layout d) ''720x348x2'' 65536
          \<lparr>cm_class = g_colourmap d, cm_adapter = ''hercules'', cm_monitor = ''mono''\<rparr> d = Inr h"
    by blast
  note t = GraphicsMode_init_Inr(9)[OF h]
  from hercules_entry d GraphicsMode_init_Inr[OF h]
  have v: "pixel_height h = 348" "height h = 25" "font_height h = 14" by simp_all
  from graphics_font_cell[where cls = "g_layout d" and nm = "''720x348x2''" and vms = 65536
      and cm = "\<lparr>cm_class = g_colourmap d, cm_adapter = ''hercules'', cm_monitor = ''mono''\<rparr>"
      and d = d and m = h and number = 3 and w = 80 and adapter = "''hercules''"
      and monitor = "''mono''" and m' = h] d g h t v
  show ?thesis by auto
qed

section \<open>The page count of the aliased CGA modes\<close>

text \<open>
  Claim C10. The names \<^verbatim>\<open>320x200x4_8pg\<close> and \<^verbatim>\<open>640x200x2_8pg\<close> are bound to the
  objects of \<^verbatim>\<open>320x200x4\<close> and \<^verbatim>\<open>640x200x2\<close>, so that after the module is loaded
  the entries of the two base names have \<^verbatim>\<open>max_pages\<close> 8 as well, where the display has
  1. Hence, for every adapter, a mode object of either name that \<^verbatim>\<open>get_mode\<close> returns,
  such as CGA mode 1 or 2, has a memory mapper that was given 8 as its maximal page count.
\<close>

theorem base_modes_have_eight_pages:
  "map_option g_max_pages (map_of GRAPHICS_MODES_display ''320x200x4'') = Some (Some 1)
   \<and> map_option g_max_pages (map_of GRAPHICS_MODES_display ''640x200x2'') = Some (Some 1)
   \<and> (case GRAPHICS_MODES of
         Inl e \<Rightarrow> False
       | Inr t \<Rightarrow> refs t ''320x200x4_8pg'' = refs t ''320x200x4'' \<and> refs t ''320x200x4'' \<noteq> None
                  \<and> refs t ''640x200x2_8pg'' = refs t ''640x200x2'' \<and> refs t ''640x200x2'' \<noteq> None)
   \<and> map_sum id g_max_pages (GRAPHICS_MODES_item ''320x200x4'') = Inr (Some 8)
   \<and> map_sum id g_max_pages (GRAPHICS_MODES_item ''640x200x2'') = Inr (Some 8)
   \<and> (get_mode number w adapter monitor vms = Inr m
        \<and> (name m = ''320x200x4'' \<or> name m = ''640x200x2'') \<longrightarrow>
          map_option mm_max_pages (memorymap m) = Some (Some 8))
   \<and> (\<exists>m1. get_mode 1 w ''cga'' monitor vms = Inr m1 \<and> name m1 = ''320x200x4''
         \<and> map_option mm_max_pages (memorymap m1) = Some (Some 8))
   \<and> (\<exists>m2. get_mode 2 w ''cga'' monitor vms = Inr m2 \<and> name m2 = ''640x200x2''
         \<and> map_option mm_max_pages (memorymap m2) = Some (Some 8))"
proof -
  have display: "map_option g_max_pages (map_of GRAPHICS_MODES_display ''320x200x4'') = Some (Some 1)"
    "map_option g_max_pages (map_of GRAPHICS_MODES_display ''640x200x2'') = Some (Some 1)"
    by code_simp+
  have shared: "case GRAPHICS_MODES of
         Inl e \<Rightarrow> False
       | Inr t \<Rightarrow> refs t ''320x200x4_8pg'' = refs t ''320x200x4'' \<and> refs t ''320x200x4'' \<noteq> None
                  \<and> refs t ''640x200x2_8pg'' = refs t ''640x200x2'' \<and> refs t ''640x200x2'' \<noteq> None"
    by code_simp
  have items: "map_sum id g_max_pages (GRAPHICS_MODES_item ''320x200x4'') = Inr (Some 8)"
    "map_sum id g_max_pages (GRAPHICS_MODES_item ''640x200x2'') = Inr (Some 8)"
    by code_simp+
  have cga: "\<exists>m'. get_mode n w ''cga'' monitor vms = Inr m' \<and> name m' = nm
         \<and> map_option mm_max_pages (memorymap m') = Some (Some 8)"
    if n: "n \<noteq> 0" and r: "requested_mode ''cga'' n w = Some nm"
      and nm: "nm = ''320x200x4'' \<or> nm = ''640x200x2''" for n nm
  proof -
    from get_mode_graphics[OF n r, of monitor vms] obtain d
      where d: "final_entry nm = Inr d"
        and g: "get_mode n w ''cga'' monitor vms =
          GraphicsMode_init (g_layout d) nm vms
            \<lparr>cm_class = g_colourmap d, cm_adapter = ''cga'', cm_monitor = monitor\<rparr> d"
      by blast
    from GraphicsMode_init_ok[OF d] obtain m'
      where m': "GraphicsMode_init (g_layout d) nm vms
            \<lparr>cm_class = g_colourmap d, cm_adapter = ''cga'', cm_monitor = monitor\<rparr> d = Inr m'"
      by blast
    from g m' have g': "get_mode n w ''cga'' monitor vms = Inr m'" by simp
    from GraphicsMode_init_Inr(10)[OF m'] have "name m' = nm" .
    with get_mode_max_pages[OF g'] nm g' show ?thesis by auto
  qed
  have one: "\<exists>m1. get_mode 1 w ''cga'' monitor vms = Inr m1 \<and> name m1 = ''320x200x4''
         \<and> map_option mm_max_pages (memorymap m1) = Some (Some 8)"
    by (rule cga[OF _ cga_requested(1)]) simp_all
  have two: "\<exists>m2. get_mode 2 w ''cga'' monitor vms = Inr m2 \<and> name m2 = ''640x200x2''
         \<and> map_option mm_max_pages (memorymap m2) = Some (Some 8)"
    by (rule cga[OF _ cga_requested(2)]) simp_all
  from display shared items get_mode_max_pages one two show ?thesis by blast
qed

theorem base_modes_have_eight_pages_witness:
  "\<exists>m. get_mode 1 80 ''cga'' ''rgb'' 16384 = Inr m \<and> name m = ''320x200x4''
     \<and> map_option mm_max_pages (memorymap m) = Some (Some 8)"
proof -
  from base_modes_have_eight_pages[where w = 80 and monitor = "''rgb''" and vms = 16384]
  obtain m1 where m1: "get_mode 1 80 ''cga'' ''rgb'' 16384 = Inr m1" "name m1 = ''320x200x4''"
    by blast
  from base_modes_have_eight_pages[where number = 1 and w = 80 and adapter = "''cga''"
      and monitor = "''rgb''" and vms = 16384 and m = m1] m1
  have "map_option mm_max_pages (memorymap m1) = Some (Some 8)" by blast
  with m1 show ?thesis by blast
qed

section \<open>Switching the width\<close>

text \<open>
  Claim C7, as stated, fails: for every adapter the current mode could be given by its
  number or by its name, both being keys of \<^verbatim>\<open>TO_WIDTH\<close> with the same target. On
  Olivetti, mode 4 is \<^verbatim>\<open>640x400x2\<close>; that name is a key, with target 1 for 40 columns,
  but the number 4 is not.
\<close>

theorem to_width_olivetti_counterexample:
  "requested_mode ''olivetti'' 4 80 = Some ''640x400x2''
   \<and> to_width ''olivetti'' (Name ''640x400x2'') 40 = Inr 1
   \<and> to_width ''olivetti'' (Nr 4) 40 = Inl KeyError"
  by code_simp

text \<open>
  Claim C7, amended. For adapter \<^verbatim>\<open>cga\<close>, mode 1 and 80 columns give mode 2, and mode 2
  and 40 columns give mode 1. For every adapter and every mode number other than 0 that
  the adapter's table in \<^verbatim>\<open>_MODES\<close> defines, except the numbers from 4 on Olivetti, the
  number and the name that \<^verbatim>\<open>_MODES\<close> gives it are both keys of the adapter's table in
  \<^verbatim>\<open>TO_WIDTH\<close>, with the same switches, so that both yield the same target for every
  column count. For the numbers 4 to 255 on Olivetti, which \<^verbatim>\<open>_MODES\<close> all defines as
  \<^verbatim>\<open>640x400x2\<close>, that name is a key and the number is not: the lookup by number raises
  \<^verbatim>\<open>KeyError\<close>.
\<close>

theorem to_width_number_and_name:
  "to_width ''cga'' (Nr 1) 80 = Inr 2
   \<and> to_width ''cga'' (Nr 2) 40 = Inr 1
   \<and> (nr \<noteq> 0 \<and> requested_mode adapter nr c = Some nm
        \<and> \<not> (adapter = ''olivetti'' \<and> 4 \<le> nr) \<longrightarrow>
        (\<exists>sw. TO_WIDTH_item adapter (Nr nr) = Inr sw
           \<and> TO_WIDTH_item adapter (Name nm) = Inr sw
           \<and> to_width adapter (Name nm) w = to_width adapter (Nr nr) w))
   \<and> (4 \<le> nr \<and> nr < 256 \<longrightarrow>
        requested_mode ''olivetti'' nr c = Some ''640x400x2''
        \<and> TO_WIDTH_item ''olivetti'' (Name ''640x400x2'') = Inr [(40, 1), (80, 3)]
        \<and> TO_WIDTH_item ''olivetti'' (Nr nr) = Inl KeyError
        \<and> to_width ''olivetti'' (Nr nr) w = Inl KeyError)"
proof -
  have cga: "to_width ''cga'' (Nr 1) 80 = Inr 2" "to_width ''cga'' (Nr 2) 40 = Inr 1"
    by code_simp+
  have both: "\<exists>sw. TO_WIDTH_item adapter (Nr nr) = Inr sw
           \<and> TO_WIDTH_item adapter (Name nm) = Inr sw
           \<and> to_width adapter (Name nm) w = to_width adapter (Nr nr) w"
    if "nr \<noteq> 0 \<and> requested_mode adapter nr c = Some nm
        \<and> \<not> (adapter = ''olivetti'' \<and> 4 \<le> nr)"
  proof -
    from that have "nr \<noteq> 0" "requested_mode adapter nr c = Some nm"
      "\<not> (adapter = ''olivetti'' \<and> 4 \<le> nr)" by simp_all
    from TO_WIDTH_item_defined[OF this] show ?thesis by (auto simp: to_width_def)
  qed
  have oli: "requested_mode ''olivetti'' nr c = Some ''640x400x2''
        \<and> TO_WIDTH_item ''olivetti'' (Name ''640x400x2'') = Inr [(40, 1), (80, 3)]
        \<and> TO_WIDTH_item ''olivetti'' (Nr nr) = Inl KeyError
        \<and> to_width ''olivetti'' (Nr nr) w = Inl KeyError"
    if "4 \<le> nr \<and> nr < 256"
    using that olivetti_requested[of nr c] TO_WIDTH_item_olivetti[of nr]
    by (simp add: to_width_def)
  from cga both oli show ?thesis by blast
qed

theorem to_width_number_and_name_witness:
  "requested_mode ''tandy'' 5 80 = Some ''320x200x16pcjr''
   \<and> TO_WIDTH_item ''tandy'' (Nr 5) = Inr [(20, 3), (40, 5), (80, 6)]
   \<and> TO_WIDTH_item ''tandy'' (Name ''320x200x16pcjr'') = Inr [(20, 3), (40, 5), (80, 6)]
   \<and> to_width ''tandy'' (Name ''320x200x16pcjr'') 80 = to_width ''tandy'' (Nr 5) 80
   \<and> requested_mode ''olivetti'' 7 80 = Some ''640x400x2''
   \<and> TO_WIDTH_item ''olivetti'' (Nr 7) = Inl KeyError"
proof -
  have a: "requested_mode ''tandy'' 5 80 = Some ''320x200x16pcjr''" by code_simp
  have b: "TO_WIDTH_item ''tandy'' (Nr 5) = Inr [(20, 3), (40, 5), (80, 6)]" by code_simp
  have c: "''tandy'' \<noteq> ''olivetti''" by simp
  from to_width_number_and_name[where nr = 5 and adapter = "''tandy''" and c = 80
      and w = 80 and nm = "''320x200x16pcjr''"] a b c
  have 1: "TO_WIDTH_item ''tandy'' (Name ''320x200x16pcjr'') = Inr [(20, 3), (40, 5), (80, 6)]
     \<and> to_width ''tandy'' (Name ''320x200x16pcjr'') 80 = to_width ''tandy'' (Nr 5) 80"
    by auto
  from to_width_number_and_name[where nr = 7 and adapter = "''olivetti''" and c = 80
      and w = 80 and nm = "''640x400x2''"]
  have 2: "requested_mode ''olivetti'' 7 80 = Some ''640x400x2''
     \<and> TO_WIDTH_item ''olivetti'' (Nr 7) = Inl KeyError" by simp
  from a b 1 2 show ?thesis by simp
qed

end
